theory Spec2Isabelle
  imports Main "HOL-Library.Word"
begin

section \<open>MemoryBuffer (src/memory\_buffer.hpp): data model\<close>

text \<open>
  The class template \<open>MemoryBuffer<T>\<close> owns at most one block of memory that lives
  in one of four kinds of memory. The embedding keeps the three private fields as a
  record, the objects of the program in a store indexed by object identity (the
  assignment operators compare \<open>this\<close> with \<open>&other\<close>), and the blocks
  in a heap of byte lists. \<open>sizeof(T)\<close> is the parameter \<open>sz\<close>, and the macro
  \<open>__GPU__\<close> that selects the build is the parameter \<open>gpu\<close>.
\<close>

datatype MemoryType = PAGEABLE | PINNED | DEVICE | MANAGED

type_synonym byte = "8 word"

text \<open>
  A pointer is an address; address 0 is \<open>nullptr\<close>. \<open>size_t\<close> is an unsigned
  64-bit integer: a count or a size is a natural number, and a product that the source
  computes in \<open>size_t\<close> (\<open>sizeof(T) * n\<close>) wraps modulo \<open>2^64\<close>.
\<close>

definition size_t_mul :: "nat \<Rightarrow> nat \<Rightarrow> nat" where
  "size_t_mul a b = (a * b) mod 2 ^ 64"

record MemoryBuffer =
  buf_data :: nat
  buf_n :: nat
  buf_mem_type :: MemoryType

record block =
  blk_kind :: MemoryType
  blk_bytes :: "byte list"

text \<open>
  The exceptions of the source are \<open>std::invalid_argument\<close>, \<open>std::runtime_error\<close>,
  \<open>std::bad_alloc\<close> and the \<open>std::bad_array_new_length\<close> of a \<open>new[]\<close> whose
  byte size overflows. \<open>undefined_behaviour\<close> is no exception: it marks an
  execution to which C++ gives no meaning (releasing a block that is not live or with the
  wrong deallocator, copying from or to a block that is not live, reading through a null
  pointer, indexing out of range).
\<close>

datatype error =
  invalid_argument | runtime_error | bad_alloc | bad_array_new_length | undefined_behaviour

text \<open>
  The world: the objects (\<open>objs w this\<close> is the field content of the object at
  \<open>this\<close>; the content of a slot where no object was constructed is indeterminate),
  the live blocks of the heap, the files, which paths can be written, and the bytes found
  in freshly allocated memory.
\<close>

record world =
  objs :: "nat \<Rightarrow> MemoryBuffer"
  heap :: "(nat \<times> block) list"
  files :: "string \<Rightarrow> byte list option"
  writable :: "string \<Rightarrow> bool"
  garbage :: "nat \<Rightarrow> byte"

text \<open>
  An operation returns the world it leaves behind, on normal return (\<open>Inr\<close>) as well
  as when it throws (\<open>Inl\<close>, with the exception): the caller that catches the
  exception goes on in that world.
\<close>

type_synonym res = "(error \<times> world) + world"

definition and_then :: "res \<Rightarrow> (world \<Rightarrow> res) \<Rightarrow> res" where
  "and_then r f = (case r of Inl e \<Rightarrow> Inl e | Inr w \<Rightarrow> f w)"

text \<open>Reading a field of the object at \<open>this\<close>.\<close>

abbreviation fld_data :: "world \<Rightarrow> nat \<Rightarrow> nat" where
  "fld_data w this \<equiv> buf_data (objs w this)"

abbreviation fld_n :: "world \<Rightarrow> nat \<Rightarrow> nat" where
  "fld_n w this \<equiv> buf_n (objs w this)"

abbreviation fld_mem_type :: "world \<Rightarrow> nat \<Rightarrow> MemoryType" where
  "fld_mem_type w this \<equiv> buf_mem_type (objs w this)"

definition set_data :: "nat \<Rightarrow> nat \<Rightarrow> world \<Rightarrow> world" where
  "set_data this p w = w\<lparr>objs := (objs w)(this := (objs w this)\<lparr>buf_data := p\<rparr>)\<rparr>"

definition set_n :: "nat \<Rightarrow> nat \<Rightarrow> world \<Rightarrow> world" where
  "set_n this k w = w\<lparr>objs := (objs w)(this := (objs w this)\<lparr>buf_n := k\<rparr>)\<rparr>"

definition set_mem_type :: "nat \<Rightarrow> MemoryType \<Rightarrow> world \<Rightarrow> world" where
  "set_mem_type this mt w = w\<lparr>objs := (objs w)(this := (objs w this)\<lparr>buf_mem_type := mt\<rparr>)\<rparr>"

section \<open>The allocators, deallocators and copies the class calls\<close>

text \<open>
  \<open>new[]\<close>, \<open>delete[]\<close> and \<open>memcpy\<close> are the C++ runtime's. Memory
  never runs out in the model: a request for a number of bytes gets a fresh address, above
  every live one. The bytes of a fresh block are indeterminate (\<open>garbage\<close>).
\<close>

fun max_addr :: "(nat \<times> block) list \<Rightarrow> nat" where
  "max_addr [] = 0"
| "max_addr (p # h) = max (fst p) (max_addr h)"

definition alloc_block :: "MemoryType \<Rightarrow> nat \<Rightarrow> world \<Rightarrow> nat \<times> world" where
  "alloc_block k len w =
     (let a = Suc (max_addr (heap w)) in
      (a, w\<lparr>heap := (a, \<lparr>blk_kind = k, blk_bytes = map (garbage w) [0..<len]\<rparr>) # heap w\<rparr>))"

definition free_block :: "MemoryType list \<Rightarrow> nat \<Rightarrow> world \<Rightarrow> res" where
  "free_block kinds a w =
     (case map_of (heap w) a of
        None \<Rightarrow> Inl (undefined_behaviour, w)
      | Some b \<Rightarrow>
          if blk_kind b \<in> set kinds
          then Inr (w\<lparr>heap := filter (\<lambda>p. fst p \<noteq> a) (heap w)\<rparr>)
          else Inl (undefined_behaviour, w))"

definition copy_block :: "MemoryType list \<Rightarrow> MemoryType list \<Rightarrow> nat \<Rightarrow> nat \<Rightarrow> nat \<Rightarrow> world \<Rightarrow> res" where
  "copy_block dst_kinds src_kinds dst src len w =
     (case map_of (heap w) dst of
        None \<Rightarrow> Inl (undefined_behaviour, w)
      | Some d \<Rightarrow>
         (case map_of (heap w) src of
            None \<Rightarrow> Inl (undefined_behaviour, w)
          | Some s \<Rightarrow>
              if blk_kind d \<in> set dst_kinds \<and> blk_kind s \<in> set src_kinds
                 \<and> len \<le> length (blk_bytes d) \<and> len \<le> length (blk_bytes s)
              then Inr (w\<lparr>heap :=
                     map (\<lambda>p. if fst p = dst
                               then (dst, d\<lparr>blk_bytes := take len (blk_bytes s) @ drop len (blk_bytes d)\<rparr>)
                               else p) (heap w)\<rparr>)
              else Inl (undefined_behaviour, w)))"

text \<open>
  \<open>new T[n]\<close> throws \<open>std::bad_array_new_length\<close>, before it allocates, when the
  byte size \<open>n * sizeof(T)\<close> does not fit \<open>size_t\<close>. \<open>new char[size]\<close> asks
  for the \<open>size\<close> bytes themselves: there is no product to overflow.
\<close>

definition new_array :: "nat \<Rightarrow> nat \<Rightarrow> world \<Rightarrow> (error \<times> world) + (nat \<times> world)" where
  "new_array sz k w =
     (if k * sz < 2 ^ 64 then Inr (alloc_block PAGEABLE (k * sz) w)
      else Inl (bad_array_new_length, w))"

definition new_chars :: "nat \<Rightarrow> world \<Rightarrow> nat \<times> world" where
  "new_chars len w = alloc_block PAGEABLE len w"

definition delete_array :: "nat \<Rightarrow> world \<Rightarrow> res" where
  "delete_array a w = free_block [PAGEABLE] a w"

text \<open>The host's \<open>memcpy\<close> cannot read or write device memory.\<close>

definition memcpy :: "nat \<Rightarrow> nat \<Rightarrow> nat \<Rightarrow> world \<Rightarrow> res" where
  "memcpy dst src len w =
     copy_block [PAGEABLE, PINNED, MANAGED] [PAGEABLE, PINNED, MANAGED] dst src len w"

text \<open>
  Modelled from the spec: the macros of \<open>gpu_macros.hpp\<close> (\<open>gpuHostAlloc\<close>,
  \<open>gpuMalloc\<close>, \<open>gpuMallocManaged\<close>, \<open>gpuHostFree\<close>, \<open>gpuFree\<close>,
  \<open>gpuMemcpy\<close>), which are not among the sources. The spec's residency backend has
  one allocation and one release strategy for each residency and byte transfers between
  them; pinned and managed memory is visible to the host, device and managed memory to
  the device.
\<close>

definition gpuHostAlloc :: "nat \<Rightarrow> world \<Rightarrow> nat \<times> world" where
  "gpuHostAlloc len w = alloc_block PINNED len w"

definition gpuMalloc :: "nat \<Rightarrow> world \<Rightarrow> nat \<times> world" where
  "gpuMalloc len w = alloc_block DEVICE len w"

definition gpuMallocManaged :: "nat \<Rightarrow> world \<Rightarrow> nat \<times> world" where
  "gpuMallocManaged len w = alloc_block MANAGED len w"

definition gpuHostFree :: "nat \<Rightarrow> world \<Rightarrow> res" where
  "gpuHostFree a w = free_block [PINNED] a w"

definition gpuFree :: "nat \<Rightarrow> world \<Rightarrow> res" where
  "gpuFree a w = free_block [DEVICE, MANAGED] a w"

datatype gpuMemcpyKind = gpuMemcpyHostToDevice | gpuMemcpyDeviceToHost | gpuMemcpyDeviceToDevice

fun gpuMemcpy :: "nat \<Rightarrow> nat \<Rightarrow> nat \<Rightarrow> gpuMemcpyKind \<Rightarrow> world \<Rightarrow> res" where
  "gpuMemcpy dst src len gpuMemcpyHostToDevice w =
     copy_block [DEVICE, MANAGED] [PAGEABLE, PINNED, MANAGED] dst src len w"
| "gpuMemcpy dst src len gpuMemcpyDeviceToHost w =
     copy_block [PAGEABLE, PINNED, MANAGED] [DEVICE, MANAGED] dst src len w"
| "gpuMemcpy dst src len gpuMemcpyDeviceToDevice w =
     copy_block [DEVICE, MANAGED] [DEVICE, MANAGED] dst src len w"

section \<open>The member functions\<close>

subsection \<open>Destructor (lines 259-266)\<close>

text \<open>The destructor releases the block and leaves the three fields as they are.\<close>

definition destructor :: "bool \<Rightarrow> nat \<Rightarrow> world \<Rightarrow> res" where
  "destructor gpu this w =
     and_then
       (if fld_mem_type w this = PAGEABLE \<and> fld_data w this \<noteq> 0
        then delete_array (fld_data w this) w else Inr w)
       (\<lambda>w1.
          if gpu then
            and_then
              (if fld_mem_type w1 this = PINNED \<and> fld_data w1 this \<noteq> 0
               then gpuHostFree (fld_data w1 this) w1 else Inr w1)
              (\<lambda>w2.
                 if (fld_mem_type w2 this = DEVICE \<or> fld_mem_type w2 this = MANAGED)
                    \<and> fld_data w2 this \<noteq> 0
                 then gpuFree (fld_data w2 this) w2 else Inr w2)
          else Inr w1)"

subsection \<open>Constructors (lines 30-58)\<close>

text \<open>
  Every constructor that does not initialise them itself starts from the default member
  initialisers \<open>_data = nullptr\<close> and \<open>n {0}\<close>; \<open>mem_type\<close> has none and keeps
  the indeterminate content of the slot.
\<close>

definition member_init :: "nat \<Rightarrow> world \<Rightarrow> world" where
  "member_init this w = set_n this 0 (set_data this 0 w)"

definition MemoryBuffer_default :: "nat \<Rightarrow> world \<Rightarrow> world" where
  "MemoryBuffer_default this w = member_init this w"

definition MemoryBuffer_adopt :: "bool \<Rightarrow> nat \<Rightarrow> nat \<Rightarrow> nat \<Rightarrow> MemoryType \<Rightarrow> world \<Rightarrow> res" where
  "MemoryBuffer_adopt gpu this buffer n_elements mt w =
     (let w0 = member_init this w in
      if \<not> gpu \<and> mt \<noteq> PAGEABLE then Inl (invalid_argument, w0)
      else if n_elements = 0 then Inl (invalid_argument, w0)
      else if buffer = 0 then Inl (invalid_argument, w0)
      else Inr (set_mem_type this mt (set_n this n_elements (set_data this buffer w0))))"

subsection \<open>allocate (lines 76-99)\<close>

definition allocate :: "bool \<Rightarrow> nat \<Rightarrow> nat \<Rightarrow> nat \<Rightarrow> MemoryType \<Rightarrow> world \<Rightarrow> res" where
  "allocate gpu sz this n_elements mt w =
     and_then (if fld_data w this \<noteq> 0 then destructor gpu this w else Inr w)
       (\<lambda>w1.
          if \<not> gpu \<and> mt \<noteq> PAGEABLE then Inl (invalid_argument, w1)
          else if n_elements = 0 then Inl (invalid_argument, w1)
          else
            let w2 =
                  (if gpu then
                     (if mt = PINNED then
                        (case gpuHostAlloc (size_t_mul sz n_elements) w1 of
                           (p, w') \<Rightarrow> set_data this p w')
                      else if mt = DEVICE then
                        (case gpuMalloc (size_t_mul sz n_elements) w1 of
                           (p, w') \<Rightarrow> set_data this p w')
                      else if mt = MANAGED then
                        (case gpuMallocManaged (size_t_mul sz n_elements) w1 of
                           (p, w') \<Rightarrow> set_data this p w')
                      else w1)
                   else w1)
            in (if mt = PAGEABLE then
                  (case new_array sz n_elements w2 of
                     Inl e \<Rightarrow> Inl e
                   | Inr (p, w') \<Rightarrow>
                       Inr (set_mem_type this mt (set_n this n_elements (set_data this p w'))))
                else Inr (set_mem_type this mt (set_n this n_elements w2))))"

definition MemoryBuffer_sized :: "bool \<Rightarrow> nat \<Rightarrow> nat \<Rightarrow> nat \<Rightarrow> MemoryType \<Rightarrow> world \<Rightarrow> res" where
  "MemoryBuffer_sized gpu sz this n_elements mt w =
     allocate gpu sz this n_elements mt (member_init this w)"

subsection \<open>Observers (lines 64-66, 176-193)\<close>

definition operator_bool :: "world \<Rightarrow> nat \<Rightarrow> bool" where
  "operator_bool w this = (if fld_data w this = 0 then False else True)"

definition data :: "world \<Rightarrow> nat \<Rightarrow> nat" where
  "data w this = fld_data w this"

definition on_gpu :: "world \<Rightarrow> nat \<Rightarrow> bool" where
  "on_gpu w this = (fld_mem_type w this = DEVICE)"

definition pinned :: "world \<Rightarrow> nat \<Rightarrow> bool" where
  "pinned w this = (fld_mem_type w this = PINNED)"

definition size_buf :: "world \<Rightarrow> nat \<Rightarrow> nat" where
  "size_buf w this = fld_n w this"

subsection \<open>Migration: to\_cpu (lines 104-120) and to\_gpu (lines 125-138)\<close>

definition to_cpu :: "bool \<Rightarrow> nat \<Rightarrow> nat \<Rightarrow> MemoryType \<Rightarrow> world \<Rightarrow> res" where
  "to_cpu gpu sz this to_type w =
     (if gpu \<and> fld_mem_type w this = DEVICE \<and> fld_data w this \<noteq> 0 then
        (case (if to_type = PINNED
               then (case gpuHostAlloc (size_t_mul sz (fld_n w this)) w of
                       (p, w') \<Rightarrow> Inr (p, set_mem_type this PINNED w'))
               else (case new_array sz (fld_n w this) w of
                       Inl e \<Rightarrow> Inl e
                     | Inr (p, w') \<Rightarrow> Inr (p, set_mem_type this PAGEABLE w')))
         of Inl e \<Rightarrow> Inl e
          | Inr (tmp, w1) \<Rightarrow>
              and_then
                (gpuMemcpy tmp (fld_data w1 this) (size_t_mul sz (fld_n w1 this))
                   gpuMemcpyDeviceToHost w1)
                (\<lambda>w2. and_then (gpuFree (fld_data w2 this) w2)
                   (\<lambda>w3. Inr (set_data this tmp w3))))
      else Inr w)"

definition to_gpu :: "bool \<Rightarrow> nat \<Rightarrow> nat \<Rightarrow> world \<Rightarrow> res" where
  "to_gpu gpu sz this w =
     (if gpu \<and> fld_mem_type w this \<noteq> DEVICE \<and> fld_data w this \<noteq> 0 then
        (case gpuMalloc (size_t_mul sz (fld_n w this)) w of
           (tmp, w1) \<Rightarrow>
             and_then
               (gpuMemcpy tmp (fld_data w1 this) (size_t_mul sz (fld_n w1 this))
                  gpuMemcpyHostToDevice w1)
               (\<lambda>w2. and_then
                  (if fld_mem_type w2 this = PINNED then gpuHostFree (fld_data w2 this) w2
                   else if fld_mem_type w2 this = MANAGED then gpuFree (fld_data w2 this) w2
                   else delete_array (fld_data w2 this) w2)
                  (\<lambda>w3. Inr (set_mem_type this DEVICE (set_data this tmp w3)))))
      else Inr w)"

subsection \<open>Persistence: dump (lines 144-153) and from\_dump (lines 158-168)\<close>

text \<open>
  The host reads \<open>len\<close> bytes at an address (\<open>ofstream::write\<close>); reading no byte
  touches no memory. \<open>ifstream::read\<close> stores the bytes of the file at an address.
\<close>

definition read_bytes :: "nat \<Rightarrow> nat \<Rightarrow> world \<Rightarrow> byte list option" where
  "read_bytes a len w =
     (if len = 0 then Some []
      else (case map_of (heap w) a of
              None \<Rightarrow> None
            | Some b \<Rightarrow>
                if blk_kind b \<in> set [PAGEABLE, PINNED, MANAGED] \<and> len \<le> length (blk_bytes b)
                then Some (take len (blk_bytes b)) else None))"

definition store_bytes :: "nat \<Rightarrow> byte list \<Rightarrow> world \<Rightarrow> world" where
  "store_bytes a bs w =
     w\<lparr>heap := map (\<lambda>p. if fst p = a
                         then (a, (snd p)\<lparr>blk_bytes := bs @ drop (length bs) (blk_bytes (snd p))\<rparr>)
                         else p) (heap w)\<rparr>"

text \<open>
  A stream that could not be opened or written is in a failed state: nothing is read from
  the buffer, and \<open>dump\<close> throws.
\<close>

definition dump :: "bool \<Rightarrow> nat \<Rightarrow> nat \<Rightarrow> string \<Rightarrow> world \<Rightarrow> res" where
  "dump gpu sz this filename w =
     and_then (to_cpu gpu sz this PAGEABLE w)
       (\<lambda>w1.
          if writable w1 filename then
            (case read_bytes (fld_data w1 this) (size_t_mul (fld_n w1 this) sz) w1 of
               None \<Rightarrow> Inl (undefined_behaviour, w1)
             | Some bs \<Rightarrow> Inr (w1\<lparr>files := (files w1)(filename \<mapsto> bs)\<rparr>))
          else Inl (runtime_error, w1))"

text \<open>
  \<open>from_dump\<close> is static and returns the new object, which is constructed in the
  caller's slot \<open>this\<close>. On a file that cannot be opened \<open>tellg()\<close> is \<open>-1\<close>,
  which is \<open>2^64 - 1\<close> as a \<open>size_t\<close>: no \<open>new char[size]\<close> of that size
  succeeds. The size of a file that exists is the number of its bytes.
\<close>

definition from_dump :: "bool \<Rightarrow> nat \<Rightarrow> nat \<Rightarrow> string \<Rightarrow> world \<Rightarrow> res" where
  "from_dump gpu sz this filename w =
     (case files w filename of
        None \<Rightarrow> Inl (bad_alloc, w)
      | Some bs \<Rightarrow>
          (case new_chars (length bs) w of
             (buffer, w1) \<Rightarrow>
               MemoryBuffer_adopt gpu this buffer (length bs div sz) PAGEABLE
                 (store_bytes buffer bs w1)))"

subsection \<open>Copy and move (lines 195-254)\<close>

text \<open>
  Lines 199-214 of the copy constructor and lines 228-243 of the copy assignment are the
  same text: with \<open>n\<close> and \<open>mem_type\<close> already taken from \<open>other\<close>, allocate a
  block of the kind and copy \<open>n * sizeof(T)\<close> bytes, when \<open>other\<close> has a block.
\<close>

definition copy_storage :: "bool \<Rightarrow> nat \<Rightarrow> nat \<Rightarrow> nat \<Rightarrow> world \<Rightarrow> res" where
  "copy_storage gpu sz this other w =
     and_then
       (if fld_mem_type w this = PAGEABLE \<and> fld_data w other \<noteq> 0 then
          (case new_array sz (fld_n w this) w of
             Inl e \<Rightarrow> Inl e
           | Inr (p, w') \<Rightarrow>
               (let w'' = set_data this p w' in
                memcpy (fld_data w'' this) (fld_data w'' other)
                  (size_t_mul (fld_n w'' this) sz) w''))
        else Inr w)
       (\<lambda>w1.
          if gpu then
            (if fld_mem_type w1 this = PINNED \<and> fld_data w1 other \<noteq> 0 then
               (case gpuHostAlloc (size_t_mul (fld_n w1 this) sz) w1 of
                  (p, w') \<Rightarrow>
                    (let w'' = set_data this p w' in
                     memcpy (fld_data w'' this) (fld_data w'' other)
                       (size_t_mul (fld_n w'' this) sz) w''))
             else if fld_mem_type w1 this = DEVICE \<and> fld_data w1 other \<noteq> 0 then
               (case gpuMalloc (size_t_mul (fld_n w1 this) sz) w1 of
                  (p, w') \<Rightarrow>
                    (let w'' = set_data this p w' in
                     gpuMemcpy (fld_data w'' this) (fld_data w'' other)
                       (size_t_mul (fld_n w'' this) sz) gpuMemcpyDeviceToDevice w''))
             else if fld_mem_type w1 this = MANAGED \<and> fld_data w1 other \<noteq> 0 then
               (case gpuMallocManaged (size_t_mul (fld_n w1 this) sz) w1 of
                  (p, w') \<Rightarrow>
                    (let w'' = set_data this p w' in
                     memcpy (fld_data w'' this) (fld_data w'' other)
                       (size_t_mul (fld_n w'' this) sz) w''))
             else Inr w1)
          else Inr w1)"

definition MemoryBuffer_copy :: "bool \<Rightarrow> nat \<Rightarrow> nat \<Rightarrow> nat \<Rightarrow> world \<Rightarrow> res" where
  "MemoryBuffer_copy gpu sz this other w =
     (let w0 = member_init this w;
          w1 = set_n this (fld_n w0 other) w0;
          w2 = set_mem_type this (fld_mem_type w1 other) w1;
          w3 = set_data this 0 w2
      in copy_storage gpu sz this other w3)"

text \<open>The members are initialised in the order of their declaration.\<close>

definition MemoryBuffer_move :: "nat \<Rightarrow> nat \<Rightarrow> world \<Rightarrow> world" where
  "MemoryBuffer_move this other w =
     (let w1 = set_data this (fld_data w other) w;
          w2 = set_n this (fld_n w1 other) w1;
          w3 = set_mem_type this (fld_mem_type w2 other) w2
      in set_data other 0 w3)"

definition assign_copy :: "bool \<Rightarrow> nat \<Rightarrow> nat \<Rightarrow> nat \<Rightarrow> world \<Rightarrow> res" where
  "assign_copy gpu sz this other w =
     (if this = other then Inr w
      else
        and_then (if fld_data w this \<noteq> 0 then destructor gpu this w else Inr w)
          (\<lambda>w0.
             let w1 = set_n this (fld_n w0 other) w0;
                 w2 = set_mem_type this (fld_mem_type w1 other) w1
             in copy_storage gpu sz this other w2))"

definition assign_move :: "bool \<Rightarrow> nat \<Rightarrow> nat \<Rightarrow> world \<Rightarrow> res" where
  "assign_move gpu this other w =
     and_then (if fld_data w this \<noteq> 0 then destructor gpu this w else Inr w)
       (\<lambda>w0.
          let w1 = set_n this (fld_n w0 other) w0;
              w2 = set_mem_type this (fld_mem_type w1 other) w1;
              w3 = set_data this (fld_data w2 other) w2
          in Inr (set_data other 0 w3))"

subsection \<open>operator[] (lines 256-257)\<close>

text \<open>
  \<open>_data[i]\<close> is the \<open>sizeof(T)\<close> bytes at offset \<open>i * sizeof(T)\<close> of the block.
  There is no bounds check: the access has a meaning when \<open>i\<close> is not negative, the
  block is live, visible to the host, and holds the element.
\<close>

definition index_ok :: "nat \<Rightarrow> nat \<Rightarrow> int \<Rightarrow> world \<Rightarrow> bool" where
  "index_ok sz this i w =
     (0 \<le> i \<and>
      (case map_of (heap w) (fld_data w this) of
         None \<Rightarrow> False
       | Some b \<Rightarrow> blk_kind b \<in> set [PAGEABLE, PINNED, MANAGED]
                    \<and> (nat i + 1) * sz \<le> length (blk_bytes b)))"

definition index_read :: "nat \<Rightarrow> nat \<Rightarrow> int \<Rightarrow> world \<Rightarrow> error + byte list" where
  "index_read sz this i w =
     (if index_ok sz this i w
      then (case map_of (heap w) (fld_data w this) of
              None \<Rightarrow> Inl undefined_behaviour
            | Some b \<Rightarrow> Inr (take sz (drop (nat i * sz) (blk_bytes b))))
      else Inl undefined_behaviour)"

definition index_write :: "nat \<Rightarrow> nat \<Rightarrow> int \<Rightarrow> byte list \<Rightarrow> world \<Rightarrow> res" where
  "index_write sz this i v w =
     (if index_ok sz this i w \<and> length v = sz
      then Inr (w\<lparr>heap :=
             map (\<lambda>p. if fst p = fld_data w this
                       then (fst p, (snd p)\<lparr>blk_bytes :=
                               take (nat i * sz) (blk_bytes (snd p)) @ v
                               @ drop ((nat i + 1) * sz) (blk_bytes (snd p))\<rparr>)
                       else p) (heap w)\<rparr>)
      else Inl (undefined_behaviour, w))"

section \<open>Predicates of the specification\<close>

text \<open>
  A buffer is valid when its handle is null, or is the address of a live block of the
  buffer's kind that holds its \<open>n\<close> elements; the size of a block in memory is a
  \<open>size_t\<close>. It is populated when, moreover, it has a
  block and at least one element. A residency is supported by the build when the build
  has the accelerator or the residency is the pageable one.
\<close>

definition valid :: "nat \<Rightarrow> world \<Rightarrow> nat \<Rightarrow> bool" where
  "valid sz w this =
     (if fld_data w this = 0 then True
      else (case map_of (heap w) (fld_data w this) of
              None \<Rightarrow> False
            | Some b \<Rightarrow> blk_kind b = fld_mem_type w this
                         \<and> fld_n w this * sz \<le> length (blk_bytes b)
                         \<and> length (blk_bytes b) < 2 ^ 64))"

definition populated :: "nat \<Rightarrow> world \<Rightarrow> nat \<Rightarrow> bool" where
  "populated sz w this = (fld_data w this \<noteq> 0 \<and> 0 < fld_n w this \<and> valid sz w this)"

definition supported :: "bool \<Rightarrow> MemoryType \<Rightarrow> bool" where
  "supported gpu mt = (gpu \<or> mt = PAGEABLE)"

text \<open>The spec's invariant: the storage handle is null if and only if the count is 0.\<close>

definition null_iff_zero :: "world \<Rightarrow> nat \<Rightarrow> bool" where
  "null_iff_zero w this = ((fld_data w this = 0) = (fld_n w this = 0))"

text \<open>The bytes of the \<open>n\<close> elements of a buffer.\<close>

definition contents :: "nat \<Rightarrow> world \<Rightarrow> nat \<Rightarrow> byte list" where
  "contents sz w this =
     (case map_of (heap w) (fld_data w this) of
        None \<Rightarrow> []
      | Some b \<Rightarrow> take (fld_n w this * sz) (blk_bytes b))"

text \<open>
  The world a valid buffer's destructor leaves: the block is gone from the heap when the
  handle is not null and the build has a deallocator for the buffer's kind.
\<close>

definition released :: "bool \<Rightarrow> nat \<Rightarrow> world \<Rightarrow> world" where
  "released gpu this w =
     (if fld_data w this \<noteq> 0 \<and> (gpu \<or> fld_mem_type w this = PAGEABLE)
      then w\<lparr>heap := filter (\<lambda>p. fst p \<noteq> fld_data w this) (heap w)\<rparr> else w)"

text \<open>
  \<open>after r P\<close>: \<open>P\<close> holds in the world an execution leaves behind, on return and
  after an exception, whenever the execution has a meaning.
\<close>

definition after :: "res \<Rightarrow> (world \<Rightarrow> bool) \<Rightarrow> bool" where
  "after r P = (case r of Inr w \<Rightarrow> P w | Inl (e, w) \<Rightarrow> e = undefined_behaviour \<or> P w)"

text \<open>
  \<open>is_deep_copy sz w h0 w' this other\<close>: in \<open>w'\<close> the buffer \<open>this\<close> is a deep
  copy of the buffer \<open>other\<close> of \<open>w\<close>. Its storage is fresh (not null, not live in
  the heap \<open>h0\<close> in which it was allocated, not the storage of \<open>other\<close>); size,
  residency and bytes are those of \<open>other\<close>; \<open>other\<close> is as it was; both are
  populated; and writing an element of either one changes that element and leaves the
  bytes of the other one alone.
\<close>

definition is_deep_copy :: "nat \<Rightarrow> world \<Rightarrow> (nat \<times> block) list \<Rightarrow> world \<Rightarrow> nat \<Rightarrow> nat \<Rightarrow> bool" where
  "is_deep_copy sz w h0 w' this other =
     (data w' this \<noteq> 0 \<and> map_of h0 (data w' this) = None \<and> data w' this \<noteq> data w' other
      \<and> size_buf w' this = size_buf w other \<and> fld_mem_type w' this = fld_mem_type w other
      \<and> contents sz w' this = contents sz w other
      \<and> objs w' other = objs w other \<and> contents sz w' other = contents sz w other
      \<and> populated sz w' this \<and> populated sz w' other
      \<and> (\<forall>i v w''. index_write sz other i v w' = Inr w'' \<longrightarrow>
             index_read sz other i w'' = Inr v \<and> contents sz w'' this = contents sz w' this)
      \<and> (\<forall>i v w''. index_write sz this i v w' = Inr w'' \<longrightarrow>
             index_read sz this i w'' = Inr v \<and> contents sz w'' other = contents sz w' other))"

text \<open>Whether an execution returned normally, and the world it left behind.\<close>

definition returns :: "res \<Rightarrow> bool" where
  "returns r = (case r of Inr w \<Rightarrow> True | Inl e \<Rightarrow> False)"

definition world_of :: "res \<Rightarrow> world" where
  "world_of r = (case r of Inr w \<Rightarrow> w | Inl e \<Rightarrow> snd e)"

section \<open>Example worlds\<close>

text \<open>
  No object and no block; one pageable buffer of four 4-byte elements 1, 2, 3, 4 at object
  0; one device buffer of two 2-byte elements at object 0.
\<close>

definition empty_world :: world where
  "empty_world =
     \<lparr>objs = (\<lambda>_. \<lparr>buf_data = 0, buf_n = 0, buf_mem_type = PAGEABLE\<rparr>),
      heap = [], files = (\<lambda>_. None), writable = (\<lambda>_. True), garbage = (\<lambda>_. 0)\<rparr>"

definition host_world :: world where
  "host_world =
     \<lparr>objs = (\<lambda>_. \<lparr>buf_data = 0, buf_n = 0, buf_mem_type = PAGEABLE\<rparr>)
               (0 := \<lparr>buf_data = 1, buf_n = 4, buf_mem_type = PAGEABLE\<rparr>),
      heap = [(1, \<lparr>blk_kind = PAGEABLE,
                    blk_bytes = [1, 0, 0, 0, 2, 0, 0, 0, 3, 0, 0, 0, 4, 0, 0, 0]\<rparr>)],
      files = (\<lambda>_. None), writable = (\<lambda>_. True), garbage = (\<lambda>_. 0)\<rparr>"

definition pinned_world :: world where
  "pinned_world =
     \<lparr>objs = (\<lambda>_. \<lparr>buf_data = 0, buf_n = 0, buf_mem_type = PAGEABLE\<rparr>)
               (0 := \<lparr>buf_data = 1, buf_n = 2, buf_mem_type = PINNED\<rparr>),
      heap = [(1, \<lparr>blk_kind = PINNED, blk_bytes = [1, 0, 2, 0]\<rparr>)],
      files = (\<lambda>_. None), writable = (\<lambda>_. True), garbage = (\<lambda>_. 0)\<rparr>"

definition device_world :: world where
  "device_world =
     \<lparr>objs = (\<lambda>_. \<lparr>buf_data = 0, buf_n = 0, buf_mem_type = PAGEABLE\<rparr>)
               (0 := \<lparr>buf_data = 1, buf_n = 2, buf_mem_type = DEVICE\<rparr>),
      heap = [(1, \<lparr>blk_kind = DEVICE, blk_bytes = [1, 0, 2, 0]\<rparr>)],
      files = (\<lambda>_. None), writable = (\<lambda>_. True), garbage = (\<lambda>_. 0)\<rparr>"

text \<open>The empty world with one file, \<open>buffer.bin\<close>, of the given bytes.\<close>

definition file_world :: "byte list \<Rightarrow> world" where
  "file_world bs = empty_world\<lparr>files := (\<lambda>_. None)(''buffer.bin'' \<mapsto> bs)\<rparr>"

section \<open>Basic facts about the heap and the fields\<close>

lemmas field_simps = set_data_def set_n_def set_mem_type_def member_init_def

lemmas alloc_simps = new_array_def new_chars_def gpuHostAlloc_def gpuMalloc_def gpuMallocManaged_def
  alloc_block_def

lemmas free_simps = delete_array_def gpuHostFree_def gpuFree_def free_block_def

lemma all_fields [simp]:
  "(b :: MemoryBuffer)\<lparr>buf_data := p, buf_n := k, buf_mem_type := mt\<rparr>
     = \<lparr>buf_data = p, buf_n = k, buf_mem_type = mt\<rparr>"
  by (cases b) simp

lemma max_addr_ge: "(a, b) \<in> set h \<Longrightarrow> a \<le> max_addr h"
  by (induction h) auto

lemma fresh_not_live [simp]: "map_of h (Suc (max_addr h)) = None"
proof -
  have "Suc (max_addr h) \<notin> fst ` set h"
    using max_addr_ge [of "Suc (max_addr h)" _ h] by fastforce
  then show ?thesis by (simp add: map_of_eq_None_iff)
qed

lemma update_fresh_id [simp]:
  "map (\<lambda>p. if fst p = Suc (max_addr h) then f p else p) h = h"
proof -
  have "\<forall>p \<in> set h. fst p \<noteq> Suc (max_addr h)"
    using max_addr_ge [of "Suc (max_addr h)" _ h] by fastforce
  then show ?thesis by (simp add: map_idI)
qed

lemma map_of_released [simp]: "map_of (filter (\<lambda>p. fst p \<noteq> a) h) a = None"
  by (induction h) auto

lemma map_of_released_other [simp]:
  "x \<noteq> a \<Longrightarrow> map_of (filter (\<lambda>p. fst p \<noteq> a) h) x = map_of h x"
  by (induction h) auto

lemma released_garbage [simp]: "garbage (released gpu this w) = garbage w"
  by (simp add: released_def)

lemma released_objs [simp]: "objs (released gpu this w) = objs w"
  by (simp add: released_def)

lemma free_block_objs: "free_block ks a w = Inr w' \<Longrightarrow> objs w' = objs w"
  by (auto simp: free_block_def split: option.splits if_splits)

lemma copy_block_objs: "copy_block dk sk d s len w = Inr w' \<Longrightarrow> objs w' = objs w"
  by (auto simp: copy_block_def split: option.splits if_splits)

lemma gpuMemcpy_objs: "gpuMemcpy d s len k w = Inr w' \<Longrightarrow> objs w' = objs w"
  by (cases k) (auto dest: copy_block_objs)

section \<open>The destructor of a valid buffer\<close>

lemma destructor_valid:
  "valid sz w this \<Longrightarrow>
   destructor gpu this w =
     Inr (if fld_data w this \<noteq> 0 \<and> (gpu \<or> fld_mem_type w this = PAGEABLE)
          then w\<lparr>heap := filter (\<lambda>p. fst p \<noteq> fld_data w this) (heap w)\<rparr> else w)"
  by (cases "fld_mem_type w this")
     (auto simp: valid_def destructor_def and_then_def free_simps split: option.splits if_splits)

lemma destructor_released:
  "valid sz w this \<Longrightarrow> destructor gpu this w = Inr (released gpu this w)"
  by (simp add: destructor_valid released_def)

lemma destructor_objs:
  "destructor gpu this w = Inr w' \<Longrightarrow> objs w' = objs w"
  by (auto simp: destructor_def and_then_def free_simps split: option.splits if_splits)

section \<open>allocate\<close>

lemma size_t_mul_fits [simp]: "a * b < 2 ^ 64 \<Longrightarrow> size_t_mul a b = a * b"
  by (simp add: size_t_mul_def)

lemma size_t_mul_fits' [simp]: "a * b < 2 ^ 64 \<Longrightarrow> size_t_mul b a = a * b"
  by (simp add: size_t_mul_def mult.commute)

lemma allocate_ok:
  assumes "valid sz w this" "supported gpu r" "0 < k" "k * sz < 2 ^ 64"
  shows "allocate gpu sz this k r w =
     Inr ((released gpu this w)
            \<lparr>heap := (Suc (max_addr (heap (released gpu this w))),
                       \<lparr>blk_kind = r, blk_bytes = map (garbage w) [0..<k * sz]\<rparr>)
                     # heap (released gpu this w),
             objs := (objs w)(this :=
                       \<lparr>buf_data = Suc (max_addr (heap (released gpu this w))),
                        buf_n = k, buf_mem_type = r\<rparr>)\<rparr>)"
proof -
  have d: "(if fld_data w this \<noteq> 0 then destructor gpu this w else Inr w) = Inr (released gpu this w)"
    using assms(1) by (simp add: destructor_released) (simp add: released_def)
  show ?thesis
    using assms(2,3,4) unfolding allocate_def d
    by (cases r) (simp_all add: and_then_def supported_def field_simps alloc_simps Let_def)
qed

lemma allocate_zero:
  assumes "valid sz w this"
  shows "allocate gpu sz this 0 r w = Inl (invalid_argument, released gpu this w)"
proof -
  have d: "(if fld_data w this \<noteq> 0 then destructor gpu this w else Inr w) = Inr (released gpu this w)"
    using assms(1) by (simp add: destructor_released) (simp add: released_def)
  show ?thesis
    unfolding allocate_def d by (simp add: and_then_def)
qed

lemma allocate_too_large:
  assumes "valid sz w this" "0 < k" "\<not> k * sz < 2 ^ 64"
  shows "allocate False sz this k PAGEABLE w = Inl (bad_array_new_length, released False this w)"
proof -
  have d: "(if fld_data w this \<noteq> 0 then destructor False this w else Inr w)
             = Inr (released False this w)"
    using assms(1) by (simp add: destructor_released) (simp add: released_def)
  show ?thesis
    using assms(2,3) unfolding allocate_def d by (simp add: and_then_def new_array_def)
qed

text \<open>
  C4 (as amended). On a valid buffer, \<open>allocate(n, r)\<close> with \<open>n > 0\<close>, a byte size
  \<open>n * sizeof(T)\<close> that fits \<open>size_t\<close> and a residency the build supports returns
  normally, and afterwards \<open>size()\<close> is \<open>n\<close>, the buffer is not empty (it converts to
  \<open>true\<close>), its residency is \<open>r\<close> and it is populated; \<open>allocate(0, r)\<close> throws
  \<open>invalid_argument\<close> for every residency \<open>r\<close>, supported or not.
\<close>

theorem allocate_spec:
  "valid sz w this \<Longrightarrow>
   (supported gpu r \<and> 0 < k \<and> k * sz < 2 ^ 64 \<longrightarrow>
      (\<exists>w'. allocate gpu sz this k r w = Inr w'
            \<and> size_buf w' this = k \<and> operator_bool w' this
            \<and> fld_mem_type w' this = r \<and> populated sz w' this)) \<and>
   (\<exists>w'. allocate gpu sz this 0 r w = Inl (invalid_argument, w'))"
  by (simp add: allocate_ok allocate_zero size_buf_def operator_bool_def populated_def valid_def)

theorem allocate_spec_witness:
  "valid 4 empty_world 0 \<and> valid 4 host_world 0 \<and>
   supported False PAGEABLE \<and> supported True DEVICE \<and> (3::nat) * 4 < 2 ^ 64 \<and>
   (\<exists>w'. allocate False 4 0 3 PAGEABLE empty_world = Inr w' \<and> size_buf w' 0 = 3 \<and> operator_bool w' 0) \<and>
   (\<exists>w'. allocate True 4 0 3 DEVICE host_world = Inr w' \<and> size_buf w' 0 = 3 \<and> operator_bool w' 0
         \<and> on_gpu w' 0) \<and>
   (\<exists>w'. allocate False 4 0 0 PINNED empty_world = Inl (invalid_argument, w')) \<and>
   (\<exists>w'. allocate True 4 0 0 MANAGED empty_world = Inl (invalid_argument, w'))"
proof -
  have v: "valid 4 empty_world 0" by (simp add: valid_def empty_world_def)
  have h: "valid 4 host_world 0" by (simp add: valid_def host_world_def)
  have s: "supported False PAGEABLE" "supported True DEVICE" by (simp_all add: supported_def)
  have b: "(3::nat) * 4 < 2 ^ 64" by simp
  show ?thesis
    using v h s b allocate_spec [OF v, of False PAGEABLE 3] allocate_spec [OF v, of False PINNED 3]
      allocate_spec [OF h, of True DEVICE 3] allocate_spec [OF v, of True MANAGED 3]
    by (auto simp: on_gpu_def)
qed

text \<open>
  C4 as stated fails for a count whose byte size does not fit \<open>size_t\<close>: on the build
  without the accelerator, \<open>allocate(2^62, PAGEABLE)\<close> for a 4-byte \<open>T\<close> does not
  return. \<open>new T[n]\<close> (line 95) throws \<open>std::bad_array_new_length\<close>, on a populated
  buffer after the old block was released.
\<close>

theorem allocate_count_too_large:
  "valid 4 empty_world 0 \<and> valid 4 host_world 0 \<and> supported False PAGEABLE \<and> (0::nat) < 2 ^ 62 \<and>
   \<not> returns (allocate False 4 0 (2 ^ 62) PAGEABLE empty_world) \<and>
   allocate False 4 0 (2 ^ 62) PAGEABLE empty_world = Inl (bad_array_new_length, empty_world) \<and>
   allocate False 4 0 (2 ^ 62) PAGEABLE host_world
     = Inl (bad_array_new_length, host_world\<lparr>heap := []\<rparr>)"
proof -
  have v: "valid 4 empty_world 0" by (simp add: valid_def empty_world_def)
  have h: "valid 4 host_world 0" by (simp add: valid_def host_world_def)
  have big: "\<not> (2::nat) ^ 62 * 4 < 2 ^ 64" by simp
  have r: "released False 0 empty_world = empty_world"
    "released False 0 host_world = host_world\<lparr>heap := []\<rparr>"
    by (simp_all add: released_def empty_world_def host_world_def)
  show ?thesis
    using allocate_too_large [OF v _ big] allocate_too_large [OF h _ big] v h
    by (simp add: r returns_def supported_def)
qed

text \<open>
  With the accelerator, the byte size wraps instead (lines 87-91): for the same count the
  block that \<open>gpuMalloc\<close> is asked for has \<open>2^64 mod 2^64 = 0\<close> bytes, and the buffer of
  \<open>2^62\<close> elements that \<open>allocate\<close> returns is not populated.
\<close>

lemma allocate_wraps_on_device:
  "returns (allocate True 4 0 (2 ^ 62) DEVICE empty_world) \<and>
   size_buf (world_of (allocate True 4 0 (2 ^ 62) DEVICE empty_world)) 0 = 2 ^ 62 \<and>
   heap (world_of (allocate True 4 0 (2 ^ 62) DEVICE empty_world))
     = [(1, \<lparr>blk_kind = DEVICE, blk_bytes = []\<rparr>)] \<and>
   \<not> populated 4 (world_of (allocate True 4 0 (2 ^ 62) DEVICE empty_world)) 0"
  by (simp add: allocate_def and_then_def empty_world_def gpuMalloc_def alloc_block_def
        size_t_mul_def field_simps returns_def world_of_def size_buf_def populated_def valid_def)

section \<open>The adoption constructor\<close>

text \<open>
  C5. The constructor from a pointer throws \<open>invalid_argument\<close> when the pointer is null,
  when \<open>n_elements\<close> is 0, and, on a build without the accelerator, when the residency is
  not the pageable one, leaving the heap as it was. Otherwise it returns normally, and
  afterwards \<open>data()\<close> is the pointer, \<open>size()\<close> is \<open>n_elements\<close> and the residency
  is the given one; nothing is allocated or copied (heap and files are as before) and no
  other object changes.
\<close>

theorem adopt_spec:
  "(buffer = 0 \<or> n_elements = 0 \<or> (\<not> gpu \<and> mt \<noteq> PAGEABLE) \<longrightarrow>
      (\<exists>w'. MemoryBuffer_adopt gpu this buffer n_elements mt w = Inl (invalid_argument, w')
            \<and> heap w' = heap w)) \<and>
   (buffer \<noteq> 0 \<and> n_elements \<noteq> 0 \<and> (gpu \<or> mt = PAGEABLE) \<longrightarrow>
      (\<exists>w'. MemoryBuffer_adopt gpu this buffer n_elements mt w = Inr w'
            \<and> data w' this = buffer \<and> size_buf w' this = n_elements
            \<and> fld_mem_type w' this = mt
            \<and> heap w' = heap w \<and> files w' = files w
            \<and> (\<forall>x. x \<noteq> this \<longrightarrow> objs w' x = objs w x)))"
  by (auto simp: MemoryBuffer_adopt_def field_simps Let_def data_def size_buf_def)

theorem adopt_spec_witness:
  "(\<exists>w'. MemoryBuffer_adopt False 1 0 4 PAGEABLE host_world = Inl (invalid_argument, w')) \<and>
   (\<exists>w'. MemoryBuffer_adopt False 1 1 0 PAGEABLE host_world = Inl (invalid_argument, w')) \<and>
   (\<exists>w'. MemoryBuffer_adopt False 1 1 4 PINNED host_world = Inl (invalid_argument, w')) \<and>
   (\<exists>w'. MemoryBuffer_adopt False 1 1 4 PAGEABLE host_world = Inr w'
         \<and> data w' 1 = 1 \<and> size_buf w' 1 = 4 \<and> fld_mem_type w' 1 = PAGEABLE
         \<and> heap w' = heap host_world)"
  using adopt_spec [of 0 4 False PAGEABLE 1 host_world]
        adopt_spec [of 1 0 False PAGEABLE 1 host_world]
        adopt_spec [of 1 4 False PINNED 1 host_world]
        adopt_spec [of 1 4 False PAGEABLE 1 host_world]
  by auto

section \<open>Migration to the host\<close>

lemma to_cpu_host:
  "fld_mem_type w this \<noteq> DEVICE \<Longrightarrow> to_cpu gpu sz this t w = Inr w"
  by (simp add: to_cpu_def)

lemma to_cpu_settled:
  "to_cpu gpu sz this t w = Inr w' \<Longrightarrow>
     \<not> (gpu \<and> fld_mem_type w' this = DEVICE \<and> fld_data w' this \<noteq> 0)"
  by (auto simp: to_cpu_def and_then_def field_simps alloc_simps gpuFree_def
           dest!: free_block_objs copy_block_objs split: if_splits sum.splits prod.splits)

text \<open>
  C6. On a buffer whose residency is pageable or pinned, \<open>to_cpu\<close> returns normally and
  changes nothing at all: handle, count, residency, heap. And for every buffer, two calls
  of \<open>to_cpu\<close> in a row do what the first one alone does.
\<close>

theorem to_cpu_idempotent:
  "(fld_mem_type w this = PAGEABLE \<or> fld_mem_type w this = PINNED \<longrightarrow>
      to_cpu gpu sz this t w = Inr w) \<and>
   and_then (to_cpu gpu sz this t w) (to_cpu gpu sz this t') = to_cpu gpu sz this t w"
proof -
  have "and_then (to_cpu gpu sz this t w) (to_cpu gpu sz this t') = to_cpu gpu sz this t w"
  proof (cases "to_cpu gpu sz this t w")
    case (Inl e)
    then show ?thesis by (simp add: and_then_def)
  next
    case (Inr w')
    from to_cpu_settled [OF Inr] have "to_cpu gpu sz this t' w' = Inr w'"
      by (auto simp: to_cpu_def)
    with Inr show ?thesis by (simp add: and_then_def)
  qed
  then show ?thesis by (auto simp: to_cpu_host)
qed

theorem to_cpu_idempotent_witness:
  "to_cpu True 2 0 PAGEABLE pinned_world = Inr pinned_world \<and>
   (\<exists>w'. to_cpu True 2 0 PAGEABLE device_world = Inr w' \<and> fld_mem_type w' 0 = PAGEABLE
         \<and> contents 2 w' 0 = [1, 0, 2, 0] \<and> to_cpu True 2 0 PAGEABLE w' = Inr w')"
proof -
  have "\<exists>w'. to_cpu True 2 0 PAGEABLE device_world = Inr w' \<and> fld_mem_type w' 0 = PAGEABLE
             \<and> contents 2 w' 0 = [1, 0, 2, 0]"
    by (simp add: to_cpu_def device_world_def alloc_simps field_simps copy_block_def and_then_def
          gpuFree_def free_block_def contents_def)
  then obtain w' where w': "to_cpu True 2 0 PAGEABLE device_world = Inr w'"
     "fld_mem_type w' 0 = PAGEABLE" "contents 2 w' 0 = [1, 0, 2, 0]" by blast
  from to_cpu_idempotent [of device_world 0 True 2 PAGEABLE PAGEABLE] w'(1)
  have "to_cpu True 2 0 PAGEABLE w' = Inr w'" by (simp add: and_then_def)
  moreover have "fld_mem_type pinned_world 0 = PINNED" by (simp add: pinned_world_def)
  ultimately show ?thesis
    using w' to_cpu_idempotent [of pinned_world 0 True 2 PAGEABLE PAGEABLE] by auto
qed

section \<open>Persistence\<close>

lemma from_dump_result:
  assumes "files w path = Some bs"
  shows "from_dump gpu sz this path w =
     (if length bs div sz = 0
      then Inl (invalid_argument,
             member_init this
               (w\<lparr>heap := (Suc (max_addr (heap w)), \<lparr>blk_kind = PAGEABLE, blk_bytes = bs\<rparr>) # heap w\<rparr>))
      else Inr (w\<lparr>heap := (Suc (max_addr (heap w)), \<lparr>blk_kind = PAGEABLE, blk_bytes = bs\<rparr>) # heap w,
                  objs := (objs w)(this :=
                     \<lparr>buf_data = Suc (max_addr (heap w)), buf_n = length bs div sz,
                      buf_mem_type = PAGEABLE\<rparr>)\<rparr>))"
  using assms
  by (simp add: from_dump_def alloc_simps store_bytes_def MemoryBuffer_adopt_def Let_def field_simps)

lemma div_zero_iff_less: "0 < sz \<Longrightarrow> (k div sz = 0) = (k < (sz::nat))"
  by (simp add: div_eq_0_iff)

lemma four_elements_and_a_byte: "2 \<le> sz \<Longrightarrow> (4 * sz + 1) div sz = (4::nat)"
  by (rule div_nat_eqI) simp_all

lemma dump_host:
  assumes "populated sz w this" "fld_mem_type w this = PAGEABLE \<or> fld_mem_type w this = PINNED"
    "writable w path"
  shows "dump gpu sz this path w = Inr (w\<lparr>files := (files w)(path \<mapsto> contents sz w this)\<rparr>)"
  using assms
  by (auto simp: dump_def to_cpu_host and_then_def read_bytes_def populated_def valid_def contents_def
        split: option.splits)

lemma contents_length:
  "populated sz w this \<Longrightarrow> length (contents sz w this) = fld_n w this * sz"
  by (auto simp: populated_def valid_def contents_def split: option.splits)

text \<open>
  C8. For a populated buffer whose residency is pageable or pinned, with \<open>n\<close> elements,
  \<open>dump\<close> to a writable path returns normally and writes exactly the
  \<open>n * sizeof(T)\<close> bytes of the elements and nothing else, leaving objects and heap as
  they were; \<open>from_dump\<close> of that file then returns a pageable buffer with
  \<open>size() = n\<close> and the same bytes.
\<close>

theorem dump_from_dump:
  assumes "populated sz w this" "fld_mem_type w this = PAGEABLE \<or> fld_mem_type w this = PINNED"
    "writable w path" "0 < sz"
  shows "\<exists>w1 w2. dump gpu sz this path w = Inr w1
           \<and> files w1 path = Some (contents sz w this)
           \<and> length (contents sz w this) = size_buf w this * sz
           \<and> objs w1 = objs w \<and> heap w1 = heap w
           \<and> from_dump gpu sz that path w1 = Inr w2
           \<and> size_buf w2 that = size_buf w this
           \<and> contents sz w2 that = contents sz w this
           \<and> fld_mem_type w2 that = PAGEABLE"
proof -
  let ?w1 = "w\<lparr>files := (files w)(path \<mapsto> contents sz w this)\<rparr>"
  have d: "dump gpu sz this path w = Inr ?w1"
    using assms(1-3) by (rule dump_host)
  have f: "files ?w1 path = Some (contents sz w this)" by simp
  have len: "length (contents sz w this) = fld_n w this * sz"
    using assms(1) by (rule contents_length)
  have pos: "0 < fld_n w this" using assms(1) by (simp add: populated_def)
  define cs where "cs = contents sz w this"
  have k: "length cs div sz = fld_n w this"
    using len assms(4) by (simp add: cs_def)
  let ?w2 = "?w1\<lparr>heap := (Suc (max_addr (heap ?w1)), \<lparr>blk_kind = PAGEABLE, blk_bytes = cs\<rparr>) # heap ?w1,
                  objs := (objs ?w1)(that :=
                     \<lparr>buf_data = Suc (max_addr (heap ?w1)), buf_n = length cs div sz,
                      buf_mem_type = PAGEABLE\<rparr>)\<rparr>"
  have l: "from_dump gpu sz that path ?w1 = Inr ?w2"
    using from_dump_result [OF f, of gpu sz that] pos k by (simp add: cs_def)
  have lcs: "length cs = fld_n w this * sz"
    using len by (simp add: cs_def)
  have c2: "contents sz ?w2 that = cs"
    by (simp add: contents_def [of sz _ that] k lcs)
  have "size_buf ?w2 that = size_buf w this" "fld_mem_type ?w2 that = PAGEABLE"
    by (simp_all add: size_buf_def k)
  with d f len l c2 show ?thesis
    by (simp add: size_buf_def cs_def)
qed

theorem dump_from_dump_witness:
  "populated 4 host_world 0 \<and>
   (\<exists>w1 w2. dump False 4 0 ''buffer.bin'' host_world = Inr w1
       \<and> files w1 ''buffer.bin'' = Some [1, 0, 0, 0, 2, 0, 0, 0, 3, 0, 0, 0, 4, 0, 0, 0]
       \<and> from_dump False 4 1 ''buffer.bin'' w1 = Inr w2
       \<and> size_buf w2 1 = 4
       \<and> contents 4 w2 1 = [1, 0, 0, 0, 2, 0, 0, 0, 3, 0, 0, 0, 4, 0, 0, 0])"
proof -
  have p: "populated 4 host_world 0"
    by (simp add: populated_def valid_def host_world_def)
  have m: "fld_mem_type host_world 0 = PAGEABLE \<or> fld_mem_type host_world 0 = PINNED"
    by (simp add: host_world_def)
  have wr: "writable host_world ''buffer.bin''" by (simp add: host_world_def)
  have c: "contents 4 host_world 0 = [1, 0, 0, 0, 2, 0, 0, 0, 3, 0, 0, 0, 4, 0, 0, 0]"
    by (simp add: contents_def host_world_def)
  have s: "size_buf host_world 0 = 4" by (simp add: size_buf_def host_world_def)
  show ?thesis
    using p dump_from_dump [OF p m wr, of False 1] by (simp add: c s) blast
qed

text \<open>
  C9 (as amended). For a file of \<open>s\<close> bytes, the buffer \<open>from_dump\<close> returns is
  pageable, has \<open>s div sizeof(T)\<close> elements and holds the first
  \<open>(s div sizeof(T)) * sizeof(T)\<close> bytes of the file; it returns one whenever
  \<open>s \<ge> sizeof(T)\<close>. When \<open>sizeof(T)\<close> is at least 2, a file of
  \<open>4 * sizeof(T) + 1\<close> bytes loads as a buffer of size 4.
\<close>

theorem from_dump_count:
  "files w path = Some bs \<Longrightarrow> 0 < sz \<Longrightarrow>
   (\<forall>w'. from_dump gpu sz this path w = Inr w' \<longrightarrow>
      size_buf w' this = length bs div sz \<and> fld_mem_type w' this = PAGEABLE
      \<and> operator_bool w' this
      \<and> contents sz w' this = take (length bs div sz * sz) bs) \<and>
   (sz \<le> length bs \<longrightarrow> (\<exists>w'. from_dump gpu sz this path w = Inr w')) \<and>
   (2 \<le> sz \<and> length bs = 4 * sz + 1 \<longrightarrow>
      (\<exists>w'. from_dump gpu sz this path w = Inr w' \<and> size_buf w' this = 4))"
proof -
  assume f: "files w path = Some bs" and sz: "0 < sz"
  have z: "(length bs div sz = 0) = (length bs < sz)"
    using sz by (rule div_zero_iff_less)
  show ?thesis
    using four_elements_and_a_byte [of sz]
    by (auto simp: from_dump_result [OF f] z size_buf_def operator_bool_def contents_def)
qed

theorem from_dump_count_witness:
  "files (file_world [1, 0, 2, 0, 3, 0, 4, 0, 9]) ''buffer.bin'' = Some [1, 0, 2, 0, 3, 0, 4, 0, 9] \<and>
   (\<exists>w'. from_dump False 2 0 ''buffer.bin'' (file_world [1, 0, 2, 0, 3, 0, 4, 0, 9]) = Inr w'
      \<and> size_buf w' 0 = 4 \<and> contents 2 w' 0 = [1, 0, 2, 0, 3, 0, 4, 0])"
proof -
  have f: "files (file_world [1, 0, 2, 0, 3, 0, 4, 0, 9]) ''buffer.bin'' = Some [1, 0, 2, 0, 3, 0, 4, 0, 9]"
    by (simp add: file_world_def)
  show ?thesis
    using f from_dump_count [OF f, of 2 False 0] by auto
qed

text \<open>
  C9 as stated fails for an element type of one byte: a file of \<open>4 * 1 + 1 = 5\<close> bytes
  loads as a buffer of size 5, not 4.
\<close>

theorem from_dump_one_byte_elements:
  "length [1, 2, 3, 4, 9 :: byte] = 4 * 1 + 1
   \<and> returns (from_dump False 1 0 ''buffer.bin'' (file_world [1, 2, 3, 4, 9]))
   \<and> size_buf (world_of (from_dump False 1 0 ''buffer.bin'' (file_world [1, 2, 3, 4, 9]))) 0 \<noteq> 4
   \<and> size_buf (world_of (from_dump False 1 0 ''buffer.bin'' (file_world [1, 2, 3, 4, 9]))) 0 = 5"
  by (simp add: from_dump_def file_world_def empty_world_def alloc_simps store_bytes_def
        MemoryBuffer_adopt_def field_simps size_buf_def returns_def world_of_def)

text \<open>
  C10. For a file shorter than \<open>sizeof(T)\<close>, the empty file among them,
  \<open>from_dump\<close> throws \<open>invalid_argument\<close>: the count it infers is 0, which the
  adoption constructor rejects.
\<close>

theorem from_dump_small:
  "files w path = Some bs \<Longrightarrow> length bs < sz \<Longrightarrow>
    (\<exists>w'. from_dump gpu sz this path w = Inl (invalid_argument, w'))"
  by (simp add: from_dump_result)

theorem from_dump_small_witness:
  "files (file_world [1, 0, 2]) ''buffer.bin'' = Some [1, 0, 2] \<and> length [1, 0, 2 :: byte] < 4 \<and>
   (\<exists>w'. from_dump False 4 0 ''buffer.bin'' (file_world [1, 0, 2]) = Inl (invalid_argument, w')) \<and>
   (\<exists>w'. from_dump False 4 0 ''buffer.bin'' (file_world []) = Inl (invalid_argument, w'))"
proof -
  have f: "files (file_world [1, 0, 2]) ''buffer.bin'' = Some [1, 0, 2]"
    and g: "files (file_world []) ''buffer.bin'' = Some []"
    by (simp_all add: file_world_def)
  show ?thesis
    using f from_dump_small [OF f, of 4 False 0] from_dump_small [OF g, of 4 False 0] by simp
qed

section \<open>A failing allocate\<close>

lemma allocate_failure_fields:
  "allocate gpu sz this k r w = Inl (e, w') \<Longrightarrow> objs w' = objs w"
  by (auto simp: allocate_def and_then_def destructor_def free_simps new_array_def Let_def
        split: if_splits sum.splits option.splits prod.splits)

text \<open>
  C1 fails on the code. \<open>allocate\<close> calls the destructor (line 77) before it checks
  its arguments: on the pageable buffer of \<open>host_world\<close>, \<open>allocate(0, PAGEABLE)\<close>
  throws \<open>invalid_argument\<close> after the block was released. The three fields keep their
  values (\<open>allocate_failure_fields\<close>), so the handle dangles: the buffer is no longer
  valid, and its destructor releases the block a second time.
\<close>

theorem allocate_failure_releases:
  "populated 4 host_world 0 \<and>
   allocate False 4 0 0 PAGEABLE host_world = Inl (invalid_argument, host_world\<lparr>heap := []\<rparr>) \<and>
   allocate False 4 0 3 PINNED host_world = Inl (invalid_argument, host_world\<lparr>heap := []\<rparr>) \<and>
   heap host_world \<noteq> [] \<and>
   fld_data (host_world\<lparr>heap := []\<rparr>) 0 = 1 \<and>
   \<not> valid 4 (host_world\<lparr>heap := []\<rparr>) 0 \<and>
   destructor False 0 (host_world\<lparr>heap := []\<rparr>)
     = Inl (undefined_behaviour, host_world\<lparr>heap := []\<rparr>)"
  by (simp add: populated_def valid_def host_world_def allocate_def destructor_def and_then_def
        free_simps)

section \<open>Move construction and move assignment\<close>

lemma all_fields_rotated [simp]:
  "(b :: MemoryBuffer)\<lparr>buf_n := k, buf_mem_type := mt, buf_data := p\<rparr>
     = \<lparr>buf_data = p, buf_n = k, buf_mem_type = mt\<rparr>"
  by (cases b) simp

lemma move_fields:
  assumes "this \<noteq> other"
  shows "objs (MemoryBuffer_move this other w)
           = (objs w)(this := \<lparr>buf_data = fld_data w other, buf_n = fld_n w other,
                                 buf_mem_type = fld_mem_type w other\<rparr>,
                      other := (objs w other)\<lparr>buf_data := 0\<rparr>)"
    and "heap (MemoryBuffer_move this other w) = heap w"
  using assms by (simp_all add: MemoryBuffer_move_def field_simps Let_def)

lemma destructor_null: "fld_data w this = 0 \<Longrightarrow> destructor gpu this w = Inr w"
  by (simp add: destructor_def and_then_def)

lemma assign_move_result:
  assumes "this \<noteq> other" "valid sz w this"
  shows "assign_move gpu this other w =
           Inr ((released gpu this w)\<lparr>objs :=
              (objs w)(this := \<lparr>buf_data = fld_data w other, buf_n = fld_n w other,
                                  buf_mem_type = fld_mem_type w other\<rparr>,
                       other := (objs w other)\<lparr>buf_data := 0\<rparr>)\<rparr>)"
proof -
  have d: "(if fld_data w this \<noteq> 0 then destructor gpu this w else Inr w) = Inr (released gpu this w)"
    using assms(2) by (simp add: destructor_released) (simp add: released_def)
  show ?thesis
    using assms(1) unfolding assign_move_def d
    by (simp add: and_then_def field_simps Let_def)
qed

lemma released_other:
  "fld_data w this \<noteq> a \<Longrightarrow> map_of (heap (released gpu this w)) a = map_of (heap w) a"
  by (simp add: released_def)

text \<open>
  C2 (as amended). After moving from a populated buffer \<open>other\<close> into a different
  object \<open>this\<close>, by construction or, for a valid \<open>this\<close> with a handle of its own,
  by assignment, the handle of \<open>other\<close> is null (it converts to \<open>false\<close>) while its
  \<open>size()\<close> is still the old count; \<open>this\<close> has the handle, count, residency and
  bytes \<open>other\<close> had; the move constructor leaves the heap as it was and the move
  assignment releases only the old block of \<open>this\<close>; and the destructor of \<open>other\<close>
  then releases nothing.
\<close>

theorem move_spec:
  assumes "populated sz w other" "this \<noteq> other"
  shows "data (MemoryBuffer_move this other w) other = 0
       \<and> \<not> operator_bool (MemoryBuffer_move this other w) other
       \<and> size_buf (MemoryBuffer_move this other w) other = size_buf w other
       \<and> size_buf (MemoryBuffer_move this other w) other \<noteq> 0
       \<and> data (MemoryBuffer_move this other w) this = data w other
       \<and> size_buf (MemoryBuffer_move this other w) this = size_buf w other
       \<and> fld_mem_type (MemoryBuffer_move this other w) this = fld_mem_type w other
       \<and> heap (MemoryBuffer_move this other w) = heap w
       \<and> contents sz (MemoryBuffer_move this other w) this = contents sz w other
       \<and> destructor gpu other (MemoryBuffer_move this other w) = Inr (MemoryBuffer_move this other w)
       \<and> (valid sz w this \<and> fld_data w this \<noteq> fld_data w other \<longrightarrow>
            (\<exists>w'. assign_move gpu this other w = Inr w'
               \<and> data w' other = 0 \<and> \<not> operator_bool w' other
               \<and> size_buf w' other = size_buf w other \<and> size_buf w' other \<noteq> 0
               \<and> data w' this = data w other \<and> size_buf w' this = size_buf w other
               \<and> fld_mem_type w' this = fld_mem_type w other
               \<and> heap w' = heap (released gpu this w)
               \<and> contents sz w' this = contents sz w other
               \<and> destructor gpu other w' = Inr w'))"
proof -
  let ?w' = "MemoryBuffer_move this other w"
  have n: "fld_n w other \<noteq> 0" using assms(1) by (simp add: populated_def)
  have f: "fld_data ?w' other = 0" "fld_n ?w' other = fld_n w other"
    "fld_data ?w' this = fld_data w other" "fld_n ?w' this = fld_n w other"
    "fld_mem_type ?w' this = fld_mem_type w other"
    using assms(2) by (simp_all add: move_fields)
  have h: "heap ?w' = heap w" using assms(2) by (simp add: move_fields)
  have c: "contents sz ?w' this = contents sz w other"
    by (simp add: contents_def f h cong: option.case_cong)
  have d: "destructor gpu other ?w' = Inr ?w'"
    using f(1) by (rule destructor_null)
  have a: "\<exists>w'. assign_move gpu this other w = Inr w'
               \<and> data w' other = 0 \<and> \<not> operator_bool w' other
               \<and> size_buf w' other = size_buf w other \<and> size_buf w' other \<noteq> 0
               \<and> data w' this = data w other \<and> size_buf w' this = size_buf w other
               \<and> fld_mem_type w' this = fld_mem_type w other
               \<and> heap w' = heap (released gpu this w)
               \<and> contents sz w' this = contents sz w other
               \<and> destructor gpu other w' = Inr w'"
    if v: "valid sz w this" and x: "fld_data w this \<noteq> fld_data w other"
  proof -
    let ?v = "(released gpu this w)\<lparr>objs :=
              (objs w)(this := \<lparr>buf_data = fld_data w other, buf_n = fld_n w other,
                                  buf_mem_type = fld_mem_type w other\<rparr>,
                       other := (objs w other)\<lparr>buf_data := 0\<rparr>)\<rparr>"
    have r: "assign_move gpu this other w = Inr ?v"
      using assms(2) v by (rule assign_move_result)
    have g: "fld_data ?v other = 0" "fld_n ?v other = fld_n w other"
      "fld_data ?v this = fld_data w other" "fld_n ?v this = fld_n w other"
      "fld_mem_type ?v this = fld_mem_type w other"
      using assms(2) by simp_all
    have c': "contents sz ?v this = contents sz w other"
      using x assms(2) by (simp add: contents_def released_other cong: option.case_cong)
    have d': "destructor gpu other ?v = Inr ?v"
      using g(1) by (rule destructor_null)
    show ?thesis
      unfolding r using g c' d' n by (simp add: data_def size_buf_def operator_bool_def)
  qed
  show ?thesis
    using f h c d n a by (simp add: data_def size_buf_def operator_bool_def)
qed

theorem move_spec_witness:
  "populated 4 host_world 0 \<and>
   data (MemoryBuffer_move 1 0 host_world) 0 = 0 \<and>
   size_buf (MemoryBuffer_move 1 0 host_world) 0 = 4 \<and>
   data (MemoryBuffer_move 1 0 host_world) 1 = 1 \<and>
   size_buf (MemoryBuffer_move 1 0 host_world) 1 = 4 \<and>
   contents 4 (MemoryBuffer_move 1 0 host_world) 1 = [1, 0, 0, 0, 2, 0, 0, 0, 3, 0, 0, 0, 4, 0, 0, 0] \<and>
   destructor False 0 (MemoryBuffer_move 1 0 host_world) = Inr (MemoryBuffer_move 1 0 host_world) \<and>
   (\<exists>w'. assign_move False 1 0 host_world = Inr w' \<and> data w' 0 = 0 \<and> size_buf w' 0 = 4
         \<and> data w' 1 = 1 \<and> size_buf w' 1 = 4)"
proof -
  have p: "populated 4 host_world 0"
    by (simp add: populated_def valid_def host_world_def)
  have v: "valid 4 host_world 1 \<and> fld_data host_world 1 \<noteq> fld_data host_world 0"
    by (simp add: valid_def host_world_def)
  have c: "contents 4 host_world 0 = [1, 0, 0, 0, 2, 0, 0, 0, 3, 0, 0, 0, 4, 0, 0, 0]"
    "size_buf host_world 0 = 4" "data host_world 0 = 1"
    by (simp_all add: contents_def host_world_def size_buf_def data_def)
  have ne: "(1::nat) \<noteq> 0" by simp
  show ?thesis
    using p v c move_spec [OF p ne, of False] by auto
qed

text \<open>
  C2 as stated fails: after the move the source of \<open>host_world\<close> has a null handle but
  \<open>size()\<close> is 4, not 0 (lines 217-221 and 247-254 reset \<open>_data\<close> only).
\<close>

theorem moved_from_keeps_count:
  "populated 4 host_world 0 \<and>
   \<not> (data (MemoryBuffer_move 1 0 host_world) 0 = 0
        \<and> size_buf (MemoryBuffer_move 1 0 host_world) 0 = 0) \<and>
   size_buf (MemoryBuffer_move 1 0 host_world) 0 = 4 \<and>
   returns (assign_move False 1 0 host_world) \<and>
   \<not> (data (world_of (assign_move False 1 0 host_world)) 0 = 0
        \<and> size_buf (world_of (assign_move False 1 0 host_world)) 0 = 0) \<and>
   size_buf (world_of (assign_move False 1 0 host_world)) 0 = 4"
  by (simp add: populated_def valid_def host_world_def MemoryBuffer_move_def assign_move_def
        and_then_def field_simps data_def size_buf_def returns_def world_of_def)


section \<open>The invariant: null handle if and only if zero count\<close>

lemma inv_default: "null_iff_zero (MemoryBuffer_default this w) this"
  by (simp add: null_iff_zero_def MemoryBuffer_default_def field_simps)

lemma inv_allocate:
  "null_iff_zero w this \<Longrightarrow> after (allocate gpu sz this k r w) (\<lambda>w'. null_iff_zero w' this)"
proof (cases "allocate gpu sz this k r w")
  case (Inl ew)
  then obtain e w' where ew: "ew = (e, w')" by (cases ew)
  assume "null_iff_zero w this"
  with allocate_failure_fields [of gpu sz this k r w e w'] Inl ew
  show ?thesis by (simp add: after_def null_iff_zero_def)
next
  case (Inr w')
  then have "fld_data w' this \<noteq> 0 \<and> fld_n w' this \<noteq> 0"
    by (cases r)
       (auto simp: allocate_def and_then_def field_simps alloc_simps Let_def
          split: if_splits sum.splits)
  with Inr show ?thesis by (simp add: after_def null_iff_zero_def)
qed

lemma inv_sized:
  "MemoryBuffer_sized gpu sz this k r w = Inr w' \<Longrightarrow> null_iff_zero w' this"
  by (cases r)
     (auto simp: MemoryBuffer_sized_def allocate_def and_then_def field_simps alloc_simps Let_def
        null_iff_zero_def split: if_splits sum.splits)

lemma inv_adopt:
  "MemoryBuffer_adopt gpu this buffer k mt w = Inr w' \<Longrightarrow> null_iff_zero w' this"
  by (auto simp: MemoryBuffer_adopt_def field_simps Let_def null_iff_zero_def split: if_splits)

lemma inv_from_dump:
  "from_dump gpu sz this path w = Inr w' \<Longrightarrow> null_iff_zero w' this"
  by (auto simp: from_dump_def inv_adopt split: option.splits prod.splits)

lemma to_cpu_fields:
  "to_cpu gpu sz this t w = Inr w' \<Longrightarrow>
     fld_n w' this = fld_n w this \<and> (fld_data w' this = 0) = (fld_data w this = 0)"
  by (auto simp: to_cpu_def and_then_def field_simps alloc_simps gpuFree_def
           dest!: free_block_objs copy_block_objs split: if_splits sum.splits prod.splits)

lemma to_cpu_exception:
  "to_cpu gpu sz this t w = Inl (e, w') \<Longrightarrow> e = undefined_behaviour \<or> w' = w"
  by (auto simp: to_cpu_def and_then_def field_simps alloc_simps gpuFree_def free_block_def
        copy_block_def split: if_splits sum.splits prod.splits option.splits)

lemma inv_to_cpu:
  "null_iff_zero w this \<Longrightarrow> after (to_cpu gpu sz this t w) (\<lambda>w'. null_iff_zero w' this)"
proof (cases "to_cpu gpu sz this t w")
  case (Inl ew)
  then obtain e w' where "to_cpu gpu sz this t w = Inl (e, w')" by (cases ew) simp
  moreover assume "null_iff_zero w this"
  ultimately show ?thesis
    using to_cpu_exception [of gpu sz this t w e w'] by (auto simp: after_def)
next
  case (Inr w')
  assume "null_iff_zero w this"
  with to_cpu_fields [OF Inr] Inr show ?thesis by (simp add: after_def null_iff_zero_def)
qed

lemma to_gpu_fields:
  "to_gpu gpu sz this w = Inr w' \<Longrightarrow>
     fld_n w' this = fld_n w this \<and> (fld_data w' this = 0) = (fld_data w this = 0)"
  by (auto simp: to_gpu_def and_then_def field_simps alloc_simps delete_array_def gpuHostFree_def
             gpuFree_def
           dest!: free_block_objs copy_block_objs split: if_splits sum.splits prod.splits)

lemma to_gpu_only_undefined:
  "to_gpu gpu sz this w = Inl (e, w') \<Longrightarrow> e = undefined_behaviour"
  by (auto simp: to_gpu_def and_then_def field_simps alloc_simps free_simps
        copy_block_def split: if_splits sum.splits prod.splits option.splits)

lemma inv_to_gpu:
  "null_iff_zero w this \<Longrightarrow> after (to_gpu gpu sz this w) (\<lambda>w'. null_iff_zero w' this)"
proof (cases "to_gpu gpu sz this w")
  case (Inl ew)
  then obtain e w' where "to_gpu gpu sz this w = Inl (e, w')" by (cases ew) simp
  then show ?thesis
    using to_gpu_only_undefined [of gpu sz this w e w'] by (simp add: after_def)
next
  case (Inr w')
  assume "null_iff_zero w this"
  with to_gpu_fields [OF Inr] Inr show ?thesis by (simp add: after_def null_iff_zero_def)
qed

lemma inv_dump:
  "null_iff_zero w this \<Longrightarrow> after (dump gpu sz this path w) (\<lambda>w'. null_iff_zero w' this)"
proof (cases "to_cpu gpu sz this PAGEABLE w")
  case (Inl ew)
  then obtain e w' where l: "to_cpu gpu sz this PAGEABLE w = Inl (e, w')" by (cases ew) simp
  moreover assume "null_iff_zero w this"
  ultimately show ?thesis
    using to_cpu_exception [of gpu sz this PAGEABLE w e w']
    by (auto simp: dump_def and_then_def after_def)
next
  case (Inr w1)
  assume "null_iff_zero w this"
  with to_cpu_fields [OF Inr] have "null_iff_zero w1 this" by (simp add: null_iff_zero_def)
  then show ?thesis
    by (simp add: dump_def Inr and_then_def after_def null_iff_zero_def split: option.splits)
qed


section \<open>Copy construction and copy assignment\<close>

lemma copy_storage_null:
  "fld_data w other = 0 \<Longrightarrow> copy_storage gpu sz this other w = Inr w"
  by (simp add: copy_storage_def and_then_def)

lemma copy_storage_ok:
  assumes "this \<noteq> other" "map_of (heap w) (fld_data w other) = Some b"
    "fld_data w other \<noteq> 0"
    "blk_kind b = fld_mem_type w this" "fld_n w this * sz \<le> length (blk_bytes b)"
    "supported gpu (fld_mem_type w this)" "length (blk_bytes b) < 2 ^ 64"
  shows "copy_storage gpu sz this other w =
     Inr (w\<lparr>heap := (Suc (max_addr (heap w)),
                      \<lparr>blk_kind = fld_mem_type w this,
                       blk_bytes = take (fld_n w this * sz) (blk_bytes b)\<rparr>) # heap w,
            objs := (objs w)(this := (objs w this)\<lparr>buf_data := Suc (max_addr (heap w))\<rparr>)\<rparr>)"
proof -
  have ne: "fld_data w other \<noteq> Suc (max_addr (heap w))"
    using assms(2) fresh_not_live [of "heap w"] by force
  have fits: "fld_n w this * sz < 2 ^ 64"
    using assms(5,7) by simp
  show ?thesis
    using assms ne fits
    by (cases "fld_mem_type w this")
       (simp_all add: copy_storage_def and_then_def alloc_simps field_simps memcpy_def
          copy_block_def Let_def supported_def)
qed


lemma populated_block:
  assumes "populated sz w x"
  obtains b where "map_of (heap w) (fld_data w x) = Some b" "blk_kind b = fld_mem_type w x"
    "fld_n w x * sz \<le> length (blk_bytes b)" "contents sz w x = take (fld_n w x * sz) (blk_bytes b)"
    "length (blk_bytes b) < 2 ^ 64"
  using assms by (auto simp: populated_def valid_def contents_def split: option.splits)

lemma copy_ctor_ok:
  assumes "this \<noteq> other" "populated sz w other" "supported gpu (fld_mem_type w other)"
  shows "MemoryBuffer_copy gpu sz this other w =
     Inr (w\<lparr>heap := (Suc (max_addr (heap w)),
                      \<lparr>blk_kind = fld_mem_type w other, blk_bytes = contents sz w other\<rparr>) # heap w,
            objs := (objs w)(this :=
                      \<lparr>buf_data = Suc (max_addr (heap w)), buf_n = fld_n w other,
                       buf_mem_type = fld_mem_type w other\<rparr>)\<rparr>)"
proof -
  from assms(2) obtain b where b: "map_of (heap w) (fld_data w other) = Some b"
    "blk_kind b = fld_mem_type w other" "fld_n w other * sz \<le> length (blk_bytes b)"
    "contents sz w other = take (fld_n w other * sz) (blk_bytes b)"
    "length (blk_bytes b) < 2 ^ 64"
    by (rule populated_block)
  have nz: "fld_data w other \<noteq> 0" using assms(2) by (simp add: populated_def)
  let ?w3 = "w\<lparr>objs := (objs w)(this :=
               \<lparr>buf_data = 0, buf_n = fld_n w other, buf_mem_type = fld_mem_type w other\<rparr>)\<rparr>"
  have w3: "MemoryBuffer_copy gpu sz this other w = copy_storage gpu sz this other ?w3"
    using assms(1) by (simp add: MemoryBuffer_copy_def field_simps Let_def)
  have "copy_storage gpu sz this other ?w3 =
     Inr (?w3\<lparr>heap := (Suc (max_addr (heap ?w3)),
                      \<lparr>blk_kind = fld_mem_type ?w3 this,
                       blk_bytes = take (fld_n ?w3 this * sz) (blk_bytes b)\<rparr>) # heap ?w3,
            objs := (objs ?w3)(this := (objs ?w3 this)\<lparr>buf_data := Suc (max_addr (heap ?w3))\<rparr>)\<rparr>)"
    using assms(1,3) b nz by (intro copy_storage_ok) simp_all
  then show ?thesis
    unfolding w3 by (simp add: b(4))
qed


lemma assign_copy_ok:
  assumes "this \<noteq> other" "populated sz w other" "supported gpu (fld_mem_type w other)"
    "valid sz w this" "fld_data w this \<noteq> fld_data w other"
  shows "assign_copy gpu sz this other w =
     Inr ((released gpu this w)
           \<lparr>heap := (Suc (max_addr (heap (released gpu this w))),
                      \<lparr>blk_kind = fld_mem_type w other, blk_bytes = contents sz w other\<rparr>)
                    # heap (released gpu this w),
            objs := (objs w)(this :=
                      \<lparr>buf_data = Suc (max_addr (heap (released gpu this w))), buf_n = fld_n w other,
                       buf_mem_type = fld_mem_type w other\<rparr>)\<rparr>)"
proof -
  from assms(2) obtain b where b: "map_of (heap w) (fld_data w other) = Some b"
    "blk_kind b = fld_mem_type w other" "fld_n w other * sz \<le> length (blk_bytes b)"
    "contents sz w other = take (fld_n w other * sz) (blk_bytes b)"
    "length (blk_bytes b) < 2 ^ 64"
    by (rule populated_block)
  have nz: "fld_data w other \<noteq> 0" using assms(2) by (simp add: populated_def)
  have d: "(if fld_data w this \<noteq> 0 then destructor gpu this w else Inr w) = Inr (released gpu this w)"
    using assms(4) by (simp add: destructor_released) (simp add: released_def)
  let ?r = "released gpu this w"
  let ?w2 = "?r\<lparr>objs := (objs w)(this :=
               (objs w this)\<lparr>buf_n := fld_n w other, buf_mem_type := fld_mem_type w other\<rparr>)\<rparr>"
  have w2: "assign_copy gpu sz this other w = copy_storage gpu sz this other ?w2"
    using assms(1) unfolding assign_copy_def d
    by (simp add: and_then_def field_simps Let_def)
  have m: "map_of (heap ?w2) (fld_data ?w2 other) = Some b"
    using assms(1,5) b(1) by (simp add: released_other)
  have "copy_storage gpu sz this other ?w2 =
     Inr (?w2\<lparr>heap := (Suc (max_addr (heap ?w2)),
                      \<lparr>blk_kind = fld_mem_type ?w2 this,
                       blk_bytes = take (fld_n ?w2 this * sz) (blk_bytes b)\<rparr>) # heap ?w2,
            objs := (objs ?w2)(this := (objs ?w2 this)\<lparr>buf_data := Suc (max_addr (heap ?w2))\<rparr>)\<rparr>)"
    using assms(1,3) b(2,3,5) nz m by (intro copy_storage_ok) simp_all
  then show ?thesis
    unfolding w2 by (simp add: b(4))
qed

lemma assign_copy_self: "assign_copy gpu sz this this w = Inr w"
  by (simp add: assign_copy_def)

lemma map_of_update:
  "map_of (map (\<lambda>p. if fst p = a then (fst p, f (snd p)) else p) h) x
     = (if x = a then map_option f (map_of h a) else map_of h x)"
  by (induction h) auto

lemma index_write_frame:
  assumes "index_write sz x i v w = Inr w'"
  shows "objs w' = objs w"
    and "a \<noteq> fld_data w x \<Longrightarrow> map_of (heap w') a = map_of (heap w) a"
proof -
  let ?f = "\<lambda>b. b\<lparr>blk_bytes := take (nat i * sz) (blk_bytes b) @ v @ drop ((nat i + 1) * sz) (blk_bytes b)\<rparr>"
  from assms have w': "w' = w\<lparr>heap :=
             map (\<lambda>p. if fst p = fld_data w x then (fst p, ?f (snd p)) else p) (heap w)\<rparr>"
    by (auto simp: index_write_def split: if_splits)
  show "objs w' = objs w" by (simp add: w')
  show "map_of (heap w') a = map_of (heap w) a" if "a \<noteq> fld_data w x"
    unfolding w' using that map_of_update [of "fld_data w x" ?f "heap w" a] by simp
qed

lemma index_write_other:
  assumes "index_write sz x i v w = Inr w'" "fld_data w y \<noteq> fld_data w x"
  shows "contents sz w' y = contents sz w y"
  using index_write_frame [OF assms(1)] assms(2)
  by (simp add: contents_def cong: option.case_cong)

lemma index_write_read:
  assumes "index_write sz x i v w = Inr w'"
  shows "index_read sz x i w' = Inr v"
proof -
  from assms have ok: "index_ok sz x i w" and lv: "length v = sz"
    and w': "w' = w\<lparr>heap :=
             map (\<lambda>p. if fst p = fld_data w x
                       then (fst p, (snd p)\<lparr>blk_bytes :=
                               take (nat i * sz) (blk_bytes (snd p)) @ v
                               @ drop ((nat i + 1) * sz) (blk_bytes (snd p))\<rparr>)
                       else p) (heap w)\<rparr>"
    by (auto simp: index_write_def split: if_splits)
  from ok obtain b where b: "map_of (heap w) (fld_data w x) = Some b" "0 \<le> i"
    "blk_kind b \<in> set [PAGEABLE, PINNED, MANAGED]" "(nat i + 1) * sz \<le> length (blk_bytes b)"
    by (auto simp: index_ok_def split: option.splits)
  let ?f = "\<lambda>b. b\<lparr>blk_bytes := take (nat i * sz) (blk_bytes b) @ v @ drop ((nat i + 1) * sz) (blk_bytes b)\<rparr>"
  have m: "map_of (heap w') (fld_data w' x) = Some (?f b)"
    unfolding w' using map_of_update [of "fld_data w x" ?f "heap w" "fld_data w x"] b(1) by simp
  have le: "nat i * sz \<le> length (blk_bytes b)" using b(4) by simp
  have len: "length (blk_bytes (?f b)) = length (blk_bytes b)"
    using b(4) lv by simp
  have ok': "index_ok sz x i w'"
    using b m len by (simp add: index_ok_def)
  have "take sz (drop (nat i * sz) (blk_bytes (?f b))) = v"
    using le lv by simp
  with ok' m show ?thesis by (simp add: index_read_def)
qed


lemma writes_independent:
  assumes "fld_data w' this \<noteq> fld_data w' other"
  shows "(\<forall>i v w''. index_write sz other i v w' = Inr w'' \<longrightarrow>
             index_read sz other i w'' = Inr v \<and> contents sz w'' this = contents sz w' this)
       \<and> (\<forall>i v w''. index_write sz this i v w' = Inr w'' \<longrightarrow>
             index_read sz this i w'' = Inr v \<and> contents sz w'' other = contents sz w' other)"
  using assms index_write_other [of sz other _ _ w' _ this] index_write_other [of sz this _ _ w' _ other]
    index_write_read [of sz _ _ _ w']
  by (metis (no_types))

lemma copy_facts:
  assumes "this \<noteq> other" "populated sz w other"
    "map_of (heap w0) (fld_data w other) = map_of (heap w) (fld_data w other)"
  defines "w' \<equiv> w0\<lparr>heap := (Suc (max_addr (heap w0)),
                      \<lparr>blk_kind = fld_mem_type w other, blk_bytes = contents sz w other\<rparr>) # heap w0,
                  objs := (objs w)(this :=
                      \<lparr>buf_data = Suc (max_addr (heap w0)), buf_n = fld_n w other,
                       buf_mem_type = fld_mem_type w other\<rparr>)\<rparr>"
  shows "data w' this \<noteq> 0" "map_of (heap w0) (data w' this) = None"
    "fld_data w' this \<noteq> fld_data w' other"
    "size_buf w' this = size_buf w other" "fld_mem_type w' this = fld_mem_type w other"
    "contents sz w' this = contents sz w other"
    "objs w' other = objs w other" "contents sz w' other = contents sz w other"
    "populated sz w' this" "populated sz w' other"
proof -
  from assms(2) obtain b where b: "map_of (heap w) (fld_data w other) = Some b"
    "blk_kind b = fld_mem_type w other" "fld_n w other * sz \<le> length (blk_bytes b)"
    "contents sz w other = take (fld_n w other * sz) (blk_bytes b)"
    "length (blk_bytes b) < 2 ^ 64"
    by (rule populated_block)
  have nz: "fld_data w other \<noteq> 0" "0 < fld_n w other" using assms(2) by (simp_all add: populated_def)
  have ne: "fld_data w other \<noteq> Suc (max_addr (heap w0))"
    using assms(3) b(1) fresh_not_live [of "heap w0"] by force
  have len: "length (contents sz w other) = fld_n w other * sz"
    using assms(2) by (rule contents_length)
  show "data w' this \<noteq> 0" "map_of (heap w0) (data w' this) = None"
    "size_buf w' this = size_buf w other" "fld_mem_type w' this = fld_mem_type w other"
    "objs w' other = objs w other"
    using assms(1) by (simp_all add: w'_def data_def size_buf_def)
  show "fld_data w' this \<noteq> fld_data w' other"
    using assms(1) ne by (simp add: w'_def)
  show c: "contents sz w' this = contents sz w other"
    using len by (simp add: w'_def contents_def [of sz _ this])
  show c': "contents sz w' other = contents sz w other"
    using assms(1,3) ne b by (simp add: w'_def contents_def)
  have fits: "fld_n w other * sz < 2 ^ 64"
    using b(3,5) by simp
  show "populated sz w' this"
    using nz len fits by (simp add: w'_def populated_def valid_def)
  show "populated sz w' other"
    using assms(1,3) ne b nz by (simp add: w'_def populated_def valid_def)
qed


lemma deep_copy_world:
  assumes "this \<noteq> other" "populated sz w other"
    "map_of (heap w0) (fld_data w other) = map_of (heap w) (fld_data w other)"
  shows "is_deep_copy sz w (heap w0)
           (w0\<lparr>heap := (Suc (max_addr (heap w0)),
                      \<lparr>blk_kind = fld_mem_type w other, blk_bytes = contents sz w other\<rparr>) # heap w0,
                objs := (objs w)(this :=
                      \<lparr>buf_data = Suc (max_addr (heap w0)), buf_n = fld_n w other,
                       buf_mem_type = fld_mem_type w other\<rparr>)\<rparr>) this other"
  unfolding is_deep_copy_def
  apply (intro conjI)
             apply (rule copy_facts [OF assms])
            apply (rule copy_facts [OF assms])
           apply (simp only: data_def, rule copy_facts [OF assms])
          apply (rule copy_facts [OF assms])
         apply (rule copy_facts [OF assms])
        apply (rule copy_facts [OF assms])
       apply (rule copy_facts [OF assms])
      apply (rule copy_facts [OF assms])
     apply (rule copy_facts [OF assms])
    apply (rule copy_facts [OF assms])
   apply (rule conjunct1 [OF writes_independent [OF copy_facts(3) [OF assms]]])
  apply (rule conjunct2 [OF writes_independent [OF copy_facts(3) [OF assms]]])
  done

text \<open>
  C7. For a populated buffer \<open>other\<close> of a residency the build supports and a different
  object \<open>this\<close>: the copy constructor returns normally and \<open>this\<close> is a deep copy of
  \<open>other\<close> (fresh storage of the same size and residency with equal bytes; writing an
  element of one changes it and leaves the other's bytes alone, both ways); so does the copy
  assignment to a valid \<open>this\<close> that does not share its handle with \<open>other\<close>; and
  the self-assignment changes nothing at all.
\<close>

theorem deep_copy:
  assumes "populated sz w other" "supported gpu (fld_mem_type w other)" "this \<noteq> other"
  shows "(\<exists>w'. MemoryBuffer_copy gpu sz this other w = Inr w'
            \<and> is_deep_copy sz w (heap w) w' this other)
       \<and> (valid sz w this \<and> fld_data w this \<noteq> fld_data w other \<longrightarrow>
            (\<exists>w'. assign_copy gpu sz this other w = Inr w'
               \<and> is_deep_copy sz w (heap (released gpu this w)) w' this other))
       \<and> assign_copy gpu sz other other w = Inr w"
proof (intro conjI impI)
  show "\<exists>w'. MemoryBuffer_copy gpu sz this other w = Inr w' \<and> is_deep_copy sz w (heap w) w' this other"
    unfolding copy_ctor_ok [OF assms(3,1,2)]
    using deep_copy_world [OF assms(3,1), of w] by blast
next
  show "assign_copy gpu sz other other w = Inr w" by (rule assign_copy_self)
next
  assume a: "valid sz w this \<and> fld_data w this \<noteq> fld_data w other"
  then have m: "map_of (heap (released gpu this w)) (fld_data w other) = map_of (heap w) (fld_data w other)"
    by (simp add: released_other)
  show "\<exists>w'. assign_copy gpu sz this other w = Inr w'
      \<and> is_deep_copy sz w (heap (released gpu this w)) w' this other"
    unfolding assign_copy_ok [OF assms(3,1,2) conjunct1 [OF a] conjunct2 [OF a]]
    using deep_copy_world [OF assms(3,1) m] by blast
qed


lemmas copy_eval = MemoryBuffer_copy_def copy_storage_def assign_copy_def memcpy_def copy_block_def
  field_simps alloc_simps and_then_def Let_def

theorem deep_copy_witness:
  "populated 4 host_world 0 \<and> supported False (fld_mem_type host_world 0) \<and>
   (\<exists>w' w''. MemoryBuffer_copy False 4 1 0 host_world = Inr w'
       \<and> data w' 1 = 2 \<and> data w' 0 = 1 \<and> size_buf w' 1 = 4
       \<and> contents 4 w' 1 = [1, 0, 0, 0, 2, 0, 0, 0, 3, 0, 0, 0, 4, 0, 0, 0]
       \<and> index_write 4 0 2 [9, 9, 9, 9] w' = Inr w''
       \<and> index_read 4 0 2 w'' = Inr [9, 9, 9, 9]
       \<and> contents 4 w'' 1 = [1, 0, 0, 0, 2, 0, 0, 0, 3, 0, 0, 0, 4, 0, 0, 0]) \<and>
   (\<exists>w'. assign_copy False 4 1 0 host_world = Inr w'
       \<and> contents 4 w' 1 = [1, 0, 0, 0, 2, 0, 0, 0, 3, 0, 0, 0, 4, 0, 0, 0]) \<and>
   assign_copy False 4 0 0 host_world = Inr host_world"
proof -
  have p: "populated 4 host_world 0"
    by (simp add: populated_def valid_def host_world_def)
  have s: "supported False (fld_mem_type host_world 0)"
    by (simp add: supported_def host_world_def)
  have ne: "(1::nat) \<noteq> 0" by simp
  have v: "valid 4 host_world 1 \<and> fld_data host_world 1 \<noteq> fld_data host_world 0"
    by (simp add: valid_def host_world_def)
  have c: "contents 4 host_world 0 = [1, 0, 0, 0, 2, 0, 0, 0, 3, 0, 0, 0, 4, 0, 0, 0]"
    "size_buf host_world 0 = 4"
    by (simp_all add: contents_def host_world_def size_buf_def)
  note t = deep_copy [OF p s ne]
  from t obtain w' where w': "MemoryBuffer_copy False 4 1 0 host_world = Inr w'"
    "is_deep_copy 4 host_world (heap host_world) w' 1 0" by blast
  from t v obtain u where u: "assign_copy False 4 1 0 host_world = Inr u"
    "is_deep_copy 4 host_world (heap (released False 1 host_world)) u 1 0" by blast
  have "\<exists>x. MemoryBuffer_copy False 4 1 0 host_world = Inr x \<and> data x 1 = 2 \<and> data x 0 = 1
           \<and> (\<exists>y. index_write 4 0 2 [9, 9, 9, 9] x = Inr y)"
    by (simp add: copy_eval host_world_def data_def index_write_def index_ok_def)
  with w'(1) obtain w'' where e: "data w' 1 = 2" "data w' 0 = 1"
    "index_write 4 0 2 [9, 9, 9, 9] w' = Inr w''" by auto
  from w'(2) e(3) have "index_read 4 0 2 w'' = Inr [9, 9, 9, 9]"
    "contents 4 w'' 1 = contents 4 w' 1" "contents 4 w' 1 = contents 4 host_world 0"
    "size_buf w' 1 = size_buf host_world 0"
    unfolding is_deep_copy_def by blast+
  moreover from u(2) have "contents 4 u 1 = contents 4 host_world 0"
    unfolding is_deep_copy_def by blast
  ultimately show ?thesis
    using p s w'(1) u(1) e t c by simp
qed


section \<open>The invariant under copy and move\<close>

lemma copy_storage_fields:
  assumes "copy_storage gpu sz this other w = Inr w'" "this \<noteq> other"
  shows "fld_n w' this = fld_n w this" "objs w' other = objs w other"
    "fld_data w other = 0 \<Longrightarrow> fld_data w' this = fld_data w this"
    "fld_data w other \<noteq> 0 \<Longrightarrow> supported gpu (fld_mem_type w this) \<Longrightarrow> fld_data w' this \<noteq> 0"
  using assms
  by (cases "fld_mem_type w this";
      auto simp: copy_storage_def and_then_def alloc_simps field_simps memcpy_def Let_def supported_def
        dest!: copy_block_objs split: if_splits sum.splits)+

lemma copy_storage_exception:
  "copy_storage gpu sz this other w = Inl (e, w') \<Longrightarrow>
     e = undefined_behaviour \<or> \<not> fld_n w this * sz < 2 ^ 64"
  by (auto simp: copy_storage_def and_then_def alloc_simps field_simps memcpy_def Let_def
        copy_block_def split: if_splits sum.splits option.splits)

lemma destructor_only_undefined:
  "destructor gpu this w = Inl (e, w') \<Longrightarrow> e = undefined_behaviour"
  by (auto simp: destructor_def and_then_def free_simps split: if_splits sum.splits option.splits)

lemma inv_copy:
  assumes "MemoryBuffer_copy gpu sz this other w = Inr w'" "this \<noteq> other" "null_iff_zero w other"
    "fld_data w other = 0 \<or> supported gpu (fld_mem_type w other)"
  shows "null_iff_zero w' this \<and> null_iff_zero w' other"
proof -
  let ?w3 = "w\<lparr>objs := (objs w)(this :=
               \<lparr>buf_data = 0, buf_n = fld_n w other, buf_mem_type = fld_mem_type w other\<rparr>)\<rparr>"
  have w3: "MemoryBuffer_copy gpu sz this other w = copy_storage gpu sz this other ?w3"
    using assms(2) by (simp add: MemoryBuffer_copy_def field_simps Let_def)
  note f = copy_storage_fields [OF assms(1) [unfolded w3] assms(2)]
  show ?thesis
    using f assms(2,3,4) by (cases "fld_data w other = 0") (simp_all add: null_iff_zero_def)
qed

lemma assign_copy_outcome:
  assumes "null_iff_zero w other" "null_iff_zero w this"
    "fld_data w other = 0 \<or> supported gpu (fld_mem_type w other)"
    "fld_data w this = 0 \<or> fld_data w other \<noteq> 0"
  shows "case assign_copy gpu sz this other w of
           Inr w' \<Rightarrow> null_iff_zero w' this \<and> null_iff_zero w' other
         | Inl (e, w') \<Rightarrow> e = undefined_behaviour \<or> \<not> fld_n w other * sz < 2 ^ 64"
proof (cases "this = other")
  case True
  then show ?thesis using assms(2) by (simp add: assign_copy_def)
next
  case False
  show ?thesis
  proof (cases "if fld_data w this \<noteq> 0 then destructor gpu this w else Inr w")
    case (Inl ew)
    then obtain e u where "destructor gpu this w = Inl (e, u)" "ew = (e, u)"
      by (cases ew) (auto split: if_splits)
    with Inl False destructor_only_undefined [of gpu this w e u] show ?thesis
      by (simp add: assign_copy_def and_then_def)
  next
    case (Inr w0)
    then have o: "objs w0 = objs w" by (auto dest: destructor_objs split: if_splits)
    let ?w2 = "w0\<lparr>objs := (objs w)(this :=
               (objs w this)\<lparr>buf_n := fld_n w other, buf_mem_type := fld_mem_type w other\<rparr>)\<rparr>"
    have w2: "assign_copy gpu sz this other w = copy_storage gpu sz this other ?w2"
      using False Inr o by (simp add: assign_copy_def and_then_def field_simps Let_def)
    show ?thesis
    proof (cases "copy_storage gpu sz this other ?w2")
      case (Inl ew)
      then obtain e u where l: "copy_storage gpu sz this other ?w2 = Inl (e, u)" by (cases ew) simp
      have "e = undefined_behaviour \<or> \<not> fld_n w other * sz < 2 ^ 64"
        using copy_storage_exception [OF l] by simp
      then show ?thesis
        unfolding w2 l by simp
    next
      case (Inr w')
      note f = copy_storage_fields [OF Inr False]
      have r: "assign_copy gpu sz this other w = Inr w'"
        unfolding w2 by (rule Inr)
      have "null_iff_zero w' this \<and> null_iff_zero w' other"
        using f assms False o by (cases "fld_data w other = 0") (simp_all add: null_iff_zero_def)
      then show ?thesis
        unfolding r by simp
    qed
  qed
qed

lemma inv_assign_copy_returns:
  assumes "assign_copy gpu sz this other w = Inr w'"
    "null_iff_zero w other" "null_iff_zero w this"
    "fld_data w other = 0 \<or> supported gpu (fld_mem_type w other)"
    "fld_data w this = 0 \<or> fld_data w other \<noteq> 0"
  shows "null_iff_zero w' this \<and> null_iff_zero w' other"
  using assign_copy_outcome [OF assms(2-5), of sz] assms(1) by simp

lemma inv_assign_copy:
  assumes "null_iff_zero w other" "null_iff_zero w this"
    "fld_data w other = 0 \<or> supported gpu (fld_mem_type w other)"
    "fld_data w this = 0 \<or> fld_data w other \<noteq> 0"
    "fld_n w other * sz < 2 ^ 64"
  shows "after (assign_copy gpu sz this other w) (\<lambda>w'. null_iff_zero w' this \<and> null_iff_zero w' other)"
  using assign_copy_outcome [OF assms(1-4), of sz] assms(5)
  by (auto simp: after_def split: sum.splits)

lemma inv_move:
  assumes "this \<noteq> other"
  shows "(null_iff_zero w other \<longrightarrow> null_iff_zero (MemoryBuffer_move this other w) this)
       \<and> fld_data (MemoryBuffer_move this other w) other = 0
       \<and> fld_n (MemoryBuffer_move this other w) other = fld_n w other"
  using assms by (simp add: move_fields null_iff_zero_def)

lemma inv_assign_move:
  assumes "this \<noteq> other"
  shows "after (assign_move gpu this other w)
           (\<lambda>w'. (null_iff_zero w other \<longrightarrow> null_iff_zero w' this)
                 \<and> fld_data w' other = 0 \<and> fld_n w' other = fld_n w other)"
proof (cases "if fld_data w this \<noteq> 0 then destructor gpu this w else Inr w")
  case (Inl ew)
  then obtain e u where "destructor gpu this w = Inl (e, u)" "ew = (e, u)"
    by (cases ew) (auto split: if_splits)
  with Inl destructor_only_undefined [of gpu this w e u] show ?thesis
    by (simp add: assign_move_def and_then_def after_def)
next
  case (Inr w0)
  then have o: "objs w0 = objs w" by (auto dest: destructor_objs split: if_splits)
  show ?thesis
    using assms Inr o
    by (simp add: assign_move_def and_then_def after_def field_simps Let_def null_iff_zero_def)
qed


text \<open>
  What the invariant does not survive, besides a move: the copy assignment from an empty
  buffer to a populated one. The copy constructor resets \<open>_data\<close> (line 198); the
  assignment does not, so the destination keeps the handle of the block it has just
  released, with count 0.
\<close>

lemma assign_copy_from_empty:
  "null_iff_zero host_world 0 \<and> null_iff_zero host_world 1 \<and>
   assign_copy False 4 0 1 host_world =
     Inr (host_world\<lparr>heap := [],
            objs := (objs host_world)(0 := \<lparr>buf_data = 1, buf_n = 0, buf_mem_type = PAGEABLE\<rparr>)\<rparr>)"
  by (simp add: null_iff_zero_def host_world_def assign_copy_def destructor_def free_simps
        copy_storage_def and_then_def field_simps)

text \<open>
  C3 (as amended). The invariant holds after the default constructor and after every other
  constructor that returns (sized, adoption, \<open>from_dump\<close>, copy of a buffer that
  satisfies it and whose residency the build supports). \<open>allocate\<close>, \<open>to_cpu\<close>,
  \<open>to_gpu\<close>, \<open>dump\<close> and the self-assignment preserve it, on return and after an
  exception; so does the copy assignment from a buffer with storage, or to a buffer without,
  when it returns, and also after an exception when the byte size of the source's count fits
  \<open>size_t\<close> (otherwise \<open>new T[n]\<close> throws after \<open>n\<close> was overwritten).
  A move gives the destination the handle and count of the source, so the destination
  satisfies the invariant when the source did, and leaves the source with a null handle and
  its count unchanged.
\<close>

theorem null_iff_zero_preserved:
  "null_iff_zero (MemoryBuffer_default this w) this
   \<and> (\<forall>w'. MemoryBuffer_sized gpu sz this k r w = Inr w' \<longrightarrow> null_iff_zero w' this)
   \<and> (\<forall>w'. MemoryBuffer_adopt gpu this p k r w = Inr w' \<longrightarrow> null_iff_zero w' this)
   \<and> (\<forall>w'. from_dump gpu sz this path w = Inr w' \<longrightarrow> null_iff_zero w' this)
   \<and> (null_iff_zero w this \<longrightarrow>
         after (allocate gpu sz this k r w) (\<lambda>w'. null_iff_zero w' this)
       \<and> after (to_cpu gpu sz this t w) (\<lambda>w'. null_iff_zero w' this)
       \<and> after (to_gpu gpu sz this w) (\<lambda>w'. null_iff_zero w' this)
       \<and> after (dump gpu sz this path w) (\<lambda>w'. null_iff_zero w' this)
       \<and> assign_copy gpu sz this this w = Inr w)
   \<and> (this \<noteq> other \<and> null_iff_zero w other
        \<and> (fld_data w other = 0 \<or> supported gpu (fld_mem_type w other)) \<longrightarrow>
         (\<forall>w'. MemoryBuffer_copy gpu sz this other w = Inr w' \<longrightarrow>
                null_iff_zero w' this \<and> null_iff_zero w' other)
       \<and> (null_iff_zero w this \<and> (fld_data w this = 0 \<or> fld_data w other \<noteq> 0) \<longrightarrow>
            (\<forall>w'. assign_copy gpu sz this other w = Inr w' \<longrightarrow>
                   null_iff_zero w' this \<and> null_iff_zero w' other)
          \<and> (fld_n w other * sz < 2 ^ 64 \<longrightarrow>
               after (assign_copy gpu sz this other w)
                 (\<lambda>w'. null_iff_zero w' this \<and> null_iff_zero w' other))))
   \<and> (this \<noteq> other \<longrightarrow>
         (null_iff_zero w other \<longrightarrow> null_iff_zero (MemoryBuffer_move this other w) this)
       \<and> fld_data (MemoryBuffer_move this other w) other = 0
       \<and> fld_n (MemoryBuffer_move this other w) other = fld_n w other
       \<and> after (assign_move gpu this other w)
           (\<lambda>w'. (null_iff_zero w other \<longrightarrow> null_iff_zero w' this)
                 \<and> fld_data w' other = 0 \<and> fld_n w' other = fld_n w other))"
proof (intro conjI allI impI)
  show "null_iff_zero (MemoryBuffer_default this w) this" by (rule inv_default)
  show "null_iff_zero w' this" if "MemoryBuffer_sized gpu sz this k r w = Inr w'" for w'
    using that by (rule inv_sized)
  show "null_iff_zero w' this" if "MemoryBuffer_adopt gpu this p k r w = Inr w'" for w'
    using that by (rule inv_adopt)
  show "null_iff_zero w' this" if "from_dump gpu sz this path w = Inr w'" for w'
    using that by (rule inv_from_dump)
  show "after (allocate gpu sz this k r w) (\<lambda>w'. null_iff_zero w' this)" if "null_iff_zero w this"
    using that by (rule inv_allocate)
  show "after (to_cpu gpu sz this t w) (\<lambda>w'. null_iff_zero w' this)" if "null_iff_zero w this"
    using that by (rule inv_to_cpu)
  show "after (to_gpu gpu sz this w) (\<lambda>w'. null_iff_zero w' this)" if "null_iff_zero w this"
    using that by (rule inv_to_gpu)
  show "after (dump gpu sz this path w) (\<lambda>w'. null_iff_zero w' this)" if "null_iff_zero w this"
    using that by (rule inv_dump)
  show "assign_copy gpu sz this this w = Inr w" by (rule assign_copy_self)
  show "null_iff_zero w' this" "null_iff_zero w' other"
    if "this \<noteq> other \<and> null_iff_zero w other
        \<and> (fld_data w other = 0 \<or> supported gpu (fld_mem_type w other))"
      and "MemoryBuffer_copy gpu sz this other w = Inr w'" for w'
    using inv_copy [OF that(2)] that(1) by simp_all
  show "null_iff_zero w' this" "null_iff_zero w' other"
    if "this \<noteq> other \<and> null_iff_zero w other
        \<and> (fld_data w other = 0 \<or> supported gpu (fld_mem_type w other))"
      and "null_iff_zero w this \<and> (fld_data w this = 0 \<or> fld_data w other \<noteq> 0)"
      and "assign_copy gpu sz this other w = Inr w'" for w'
    using inv_assign_copy_returns [OF that(3)] that(1,2) by simp_all
  show "after (assign_copy gpu sz this other w) (\<lambda>w'. null_iff_zero w' this \<and> null_iff_zero w' other)"
    if "this \<noteq> other \<and> null_iff_zero w other
        \<and> (fld_data w other = 0 \<or> supported gpu (fld_mem_type w other))"
      and "null_iff_zero w this \<and> (fld_data w this = 0 \<or> fld_data w other \<noteq> 0)"
      and "fld_n w other * sz < 2 ^ 64"
    using that by (intro inv_assign_copy) simp_all
  show "null_iff_zero (MemoryBuffer_move this other w) this"
    if "this \<noteq> other" "null_iff_zero w other"
    using inv_move [OF that(1)] that(2) by simp
  show "fld_data (MemoryBuffer_move this other w) other = 0"
    "fld_n (MemoryBuffer_move this other w) other = fld_n w other" if "this \<noteq> other"
    using inv_move [OF that] by simp_all
  show "after (assign_move gpu this other w)
           (\<lambda>w'. (null_iff_zero w other \<longrightarrow> null_iff_zero w' this)
                 \<and> fld_data w' other = 0 \<and> fld_n w' other = fld_n w other)" if "this \<noteq> other"
    using that by (rule inv_assign_move)
qed

theorem null_iff_zero_preserved_witness:
  "null_iff_zero host_world 0 \<and> null_iff_zero host_world 1 \<and>
   supported True (fld_mem_type host_world 0) \<and>
   (\<exists>w'. allocate True 4 0 2 PINNED host_world = Inr w' \<and> null_iff_zero w' 0) \<and>
   (\<exists>w'. to_gpu True 4 0 host_world = Inr w' \<and> null_iff_zero w' 0) \<and>
   (\<exists>w'. MemoryBuffer_copy True 4 1 0 host_world = Inr w' \<and> null_iff_zero w' 1 \<and> null_iff_zero w' 0) \<and>
   (\<exists>w'. assign_copy True 4 1 0 host_world = Inr w' \<and> null_iff_zero w' 1 \<and> null_iff_zero w' 0) \<and>
   null_iff_zero (MemoryBuffer_move 1 0 host_world) 1 \<and>
   fld_data (MemoryBuffer_move 1 0 host_world) 0 = 0 \<and>
   fld_n (MemoryBuffer_move 1 0 host_world) 0 = 4"
proof -
  have i: "null_iff_zero host_world 0" "null_iff_zero host_world 1"
    "supported True (fld_mem_type host_world 0)" "fld_n host_world 0 = 4"
    "fld_data host_world 1 = 0"
    by (simp_all add: null_iff_zero_def host_world_def supported_def)
  have ne: "(1::nat) \<noteq> 0" by simp
  have a: "\<exists>w'. allocate True 4 0 2 PINNED host_world = Inr w'"
    by (simp add: allocate_def destructor_def and_then_def free_simps alloc_simps field_simps
          host_world_def)
  have g: "\<exists>w'. to_gpu True 4 0 host_world = Inr w'"
    by (simp add: to_gpu_def and_then_def free_simps alloc_simps field_simps copy_block_def
          host_world_def)
  have c: "\<exists>w'. MemoryBuffer_copy True 4 1 0 host_world = Inr w'"
    "\<exists>w'. assign_copy True 4 1 0 host_world = Inr w'"
    by (simp_all add: copy_eval host_world_def)
  note t0 = null_iff_zero_preserved [of 0 host_world True 4 2 PINNED 0 "''f''" PINNED 1]
  note t1 = null_iff_zero_preserved [of 1 host_world True 4 2 PINNED 0 "''f''" PINNED 0]
  from t0 i(1) have "after (allocate True 4 0 2 PINNED host_world) (\<lambda>w'. null_iff_zero w' 0)"
    "after (to_gpu True 4 0 host_world) (\<lambda>w'. null_iff_zero w' 0)"
    by blast+
  with a g have "\<exists>w'. allocate True 4 0 2 PINNED host_world = Inr w' \<and> null_iff_zero w' 0"
    "\<exists>w'. to_gpu True 4 0 host_world = Inr w' \<and> null_iff_zero w' 0"
    by (auto simp: after_def)
  moreover from c(1) t1 i ne
  have "\<exists>w'. MemoryBuffer_copy True 4 1 0 host_world = Inr w' \<and> null_iff_zero w' 1 \<and> null_iff_zero w' 0"
    by blast
  moreover from c(2) t1 i ne
  have "\<exists>w'. assign_copy True 4 1 0 host_world = Inr w' \<and> null_iff_zero w' 1 \<and> null_iff_zero w' 0"
    by blast
  moreover from t1 i ne have "null_iff_zero (MemoryBuffer_move 1 0 host_world) 1"
    "fld_data (MemoryBuffer_move 1 0 host_world) 0 = 0"
    "fld_n (MemoryBuffer_move 1 0 host_world) 0 = 4"
    by simp_all
  ultimately show ?thesis using i by simp
qed

text \<open>
  C3 as stated fails: the moved-from buffer of \<open>host_world\<close> has a null handle and count
  4.
\<close>

theorem moved_from_breaks_null_iff_zero:
  "null_iff_zero host_world 0 \<and> \<not> null_iff_zero (MemoryBuffer_move 1 0 host_world) 0
   \<and> returns (assign_move False 1 0 host_world)
   \<and> \<not> null_iff_zero (world_of (assign_move False 1 0 host_world)) 0"
  by (simp add: null_iff_zero_def host_world_def MemoryBuffer_move_def assign_move_def and_then_def
        field_simps returns_def world_of_def)

end
